theory Spec2Isabelle
  imports Complex_Main "HOL-Library.Word"
begin

section \<open>The GeoClue2 position source: data model\<close>

text \<open>
  A shallow embedding of \<^verbatim>\<open>qgeopositioninfosource_geoclue2.cpp\<close>. The object's fields
  become a record that every member function takes and returns; each D-Bus call the
  source issues is recorded in a list of calls in flight, and each reply, timer expiry
  and signal of the provider is an event that runs the body of the handler the source
  connects to it.
\<close>

subsection \<open>Constants of the anonymous namespace\<close>

datatype GClueAccuracyLevel =
    GCLUE_ACCURACY_LEVEL_NONE
  | GCLUE_ACCURACY_LEVEL_COUNTRY
  | GCLUE_ACCURACY_LEVEL_CITY
  | GCLUE_ACCURACY_LEVEL_NEIGHBORHOOD
  | GCLUE_ACCURACY_LEVEL_STREET
  | GCLUE_ACCURACY_LEVEL_EXACT

text \<open>The enumerators' values, as the \<^verbatim>\<open>enum\<close> gives them.\<close>

fun level_value :: "GClueAccuracyLevel \<Rightarrow> 32 word" where
  "level_value GCLUE_ACCURACY_LEVEL_NONE = 0"
| "level_value GCLUE_ACCURACY_LEVEL_COUNTRY = 1"
| "level_value GCLUE_ACCURACY_LEVEL_CITY = 4"
| "level_value GCLUE_ACCURACY_LEVEL_NEIGHBORHOOD = 5"
| "level_value GCLUE_ACCURACY_LEVEL_STREET = 6"
| "level_value GCLUE_ACCURACY_LEVEL_EXACT = 8"

definition MINIMUM_UPDATE_INTERVAL :: int where
  "MINIMUM_UPDATE_INTERVAL = 1000"

definition UPDATE_TIMEOUT_COLD_START :: int where
  "UPDATE_TIMEOUT_COLD_START = 120000"

subsection \<open>Values of the Qt classes the source uses\<close>

text \<open>
  \<^verbatim>\<open>QGeoPositionInfoSource::Error\<close> and \<^verbatim>\<open>PositioningMethods\<close>: the enumerators the
  source names. A flag combination that is none of the three named ones takes the
  \<^verbatim>\<open>default\<close> branch of every \<^verbatim>\<open>switch\<close>, as \<open>NoPositioningMethods\<close> does.
\<close>

datatype Error = AccessError | NoError | UnknownSourceError

datatype PositioningMethods =
    NoPositioningMethods
  | SatellitePositioningMethods
  | NonSatellitePositioningMethods
  | AllPositioningMethods

text \<open>
  A C++ \<^verbatim>\<open>double\<close>, as far as the source looks at one: it only compares doubles, so
  the model keeps the value and the outcome of IEEE comparisons (every comparison with a
  NaN is false).
\<close>

datatype double = Finite real | PosInf | NegInf | NaN

fun dless :: "double \<Rightarrow> double \<Rightarrow> bool" where
  "dless NaN _ = False"
| "dless _ NaN = False"
| "dless (Finite x) (Finite y) = (x < y)"
| "dless (Finite _) PosInf = True"
| "dless (Finite _) NegInf = False"
| "dless PosInf _ = False"
| "dless NegInf NegInf = False"
| "dless NegInf _ = True"

definition dgreater :: "double \<Rightarrow> double \<Rightarrow> bool" where
  "dgreater a b = dless b a"

definition dgreater_eq :: "double \<Rightarrow> double \<Rightarrow> bool" where
  "dgreater_eq a b = (a \<noteq> NaN \<and> b \<noteq> NaN \<and> (dless b a \<or> a = b))"

text \<open>\<^verbatim>\<open>std::numeric_limits<double>::lowest()\<close>: the most negative finite double.\<close>

definition lowest :: double where
  "lowest = Finite (- ((2 ^ 53 - 1) * 2 ^ 971))"

text \<open>
  Modelled from the spec: the classes \<^verbatim>\<open>QGeoCoordinate\<close>, \<^verbatim>\<open>QGeoPositionInfo\<close> and
  \<^verbatim>\<open>QDateTime\<close> are declared outside this source file. Following the data model of the
  specification, a fix has a coordinate (latitude, longitude, optional altitude), a
  timestamp and optional attributes; a date and time is a number of milliseconds since
  the epoch, or invalid (as in a default-constructed fix).
\<close>

record QGeoCoordinate =
  latitude :: double
  longitude :: double
  altitude :: "double option"

datatype QDateTime = InvalidDateTime | MSecsSinceEpoch int

datatype Attribute = HorizontalAccuracy | GroundSpeed | Direction

record QGeoPositionInfo =
  coordinate :: QGeoCoordinate
  timestamp :: QDateTime
  attributes :: "Attribute \<Rightarrow> double option"

definition newQGeoCoordinate :: "double \<Rightarrow> double \<Rightarrow> QGeoCoordinate" where
  "newQGeoCoordinate lat lon = \<lparr>latitude = lat, longitude = lon, altitude = None\<rparr>"

definition setAltitude :: "double \<Rightarrow> QGeoCoordinate \<Rightarrow> QGeoCoordinate" where
  "setAltitude a c = c\<lparr>altitude := Some a\<rparr>"

definition newQGeoPositionInfo :: "QGeoCoordinate \<Rightarrow> QDateTime \<Rightarrow> QGeoPositionInfo" where
  "newQGeoPositionInfo c dt = \<lparr>coordinate = c, timestamp = dt, attributes = (\<lambda>_. None)\<rparr>"

definition setAttribute :: "Attribute \<Rightarrow> double \<Rightarrow> QGeoPositionInfo \<Rightarrow> QGeoPositionInfo" where
  "setAttribute a v p = p\<lparr>attributes := (attributes p)(a := Some v)\<rparr>"

definition defaultQGeoPositionInfo :: QGeoPositionInfo where
  "defaultQGeoPositionInfo =
     newQGeoPositionInfo (newQGeoCoordinate NaN NaN) InvalidDateTime"

text \<open>
  Modelled from the spec: \<^verbatim>\<open>QGeoPositionInfo::isValid\<close> is declared outside this source
  file. A fix is valid when its timestamp is valid and its coordinate has a latitude
  within [-90, 90] and a longitude within [-180, 180].
\<close>

definition in_range :: "real \<Rightarrow> double \<Rightarrow> bool" where
  "in_range b d = (case d of Finite x \<Rightarrow> - b \<le> x \<and> x \<le> b | _ \<Rightarrow> False)"

definition isValid :: "QGeoPositionInfo \<Rightarrow> bool" where
  "isValid p =
     (timestamp p \<noteq> InvalidDateTime \<and>
      in_range 90 (latitude (coordinate p)) \<and> in_range 180 (longitude (coordinate p)))"

text \<open>
  Modelled from the spec: \<^verbatim>\<open>fromSecsSinceEpoch\<close> and \<^verbatim>\<open>addMSecs\<close> of \<^verbatim>\<open>QDateTime\<close>
  (outside this repository), on milliseconds since the epoch without a range limit.
\<close>

definition fromSecsSinceEpoch :: "int \<Rightarrow> QDateTime" where
  "fromSecsSinceEpoch secs = MSecsSinceEpoch (secs * 1000)"

fun addMSecs :: "int \<Rightarrow> QDateTime \<Rightarrow> QDateTime" where
  "addMSecs ms InvalidDateTime = InvalidDateTime"
| "addMSecs ms (MSecsSinceEpoch t) = MSecsSinceEpoch (t + ms)"

text \<open>
  The \<^verbatim>\<open>Timestamp\<close> structure read from a location object: two unsigned 64-bit
  numbers, seconds and microseconds (the D-Bus type \<^verbatim>\<open>(tt)\<close>).
\<close>

record Timestamp =
  m_seconds :: "64 word"
  m_microseconds :: "64 word"

text \<open>What the properties of one location object read as.\<close>

record Location =
  loc_latitude :: double
  loc_longitude :: double
  loc_altitude :: double
  loc_accuracy :: double
  loc_speed :: double
  loc_heading :: double
  loc_timestamp :: Timestamp

subsection \<open>The object's state\<close>

text \<open>
  The client proxy \<^verbatim>\<open>m_client\<close> points to. Each proxy the source creates gets a fresh
  number. The three properties are the values the source has written through this
  proxy; \<open>started\<close> records that a \<^verbatim>\<open>Start\<close> call made on this proxy has returned
  successfully (the proxy is deleted when a \<^verbatim>\<open>Stop\<close> call returns).
\<close>

record Client =
  client_id :: nat
  started :: bool
  desktopId :: "string option"
  timeThreshold :: "32 word option"
  requestedAccuracyLevel :: "GClueAccuracyLevel option"

text \<open>A D-Bus call in flight, with the proxy it was made on.\<close>

datatype Call = GetClient | Start nat | Stop nat

text \<open>A signal the source has emitted; \<open>QueuedPositionUpdated\<close> is the queued invocation
  of \<^verbatim>\<open>positionUpdated\<close> in \<^verbatim>\<open>startUpdates\<close>.\<close>

datatype Signal =
    ErrorOccurred Error
  | PositionUpdated QGeoPositionInfo
  | QueuedPositionUpdated QGeoPositionInfo

text \<open>
  The fields of the object, those of its base class the source reads
  (\<^verbatim>\<open>updateInterval()\<close>, \<^verbatim>\<open>preferredPositioningMethods()\<close>), the environment variable
  and application name \<^verbatim>\<open>configureClient\<close> reads, the calls in flight and the signals
  emitted so far. An active single-shot timer is \<open>Some\<close> of its interval.
\<close>

record Source =
  m_running :: bool
  m_error :: Error
  m_requestTimer :: "int option"
  m_client :: "Client option"
  m_lastPosition :: QGeoPositionInfo
  updateInterval :: int
  preferredPositioningMethods :: PositioningMethods
  QT_GEOCLUE_APP_DESKTOP_ID :: string
  applicationName :: string
  pending :: "Call list"
  emitted :: "Signal list"
  next_client :: nat

section \<open>The member functions\<close>

definition setError :: "Error \<Rightarrow> Source \<Rightarrow> Source" where
  "setError e s =
     (let s1 = s\<lparr>m_error := e\<rparr>
      in if m_error s1 \<noteq> NoError then s1\<lparr>emitted := emitted s1 @ [ErrorOccurred (m_error s1)]\<rparr>
         else s1)"

text \<open>
  \<^verbatim>\<open>supportedPositioningMethods\<close>: the argument is what reading the manager's property
  \<^verbatim>\<open>AvailableAccuracyLevel\<close> and converting it with \<^verbatim>\<open>toUInt(&ok)\<close> gives, \<open>None\<close>
  when \<^verbatim>\<open>ok\<close> is false.
\<close>

definition supportedPositioningMethods ::
  "32 word option \<Rightarrow> Source \<Rightarrow> PositioningMethods \<times> Source" where
  "supportedPositioningMethods prop s =
     (case prop of
        None \<Rightarrow> (NoPositioningMethods, setError AccessError s)
      | Some accuracy \<Rightarrow>
          (if accuracy = level_value GCLUE_ACCURACY_LEVEL_COUNTRY
             \<or> accuracy = level_value GCLUE_ACCURACY_LEVEL_CITY
             \<or> accuracy = level_value GCLUE_ACCURACY_LEVEL_NEIGHBORHOOD
             \<or> accuracy = level_value GCLUE_ACCURACY_LEVEL_STREET
           then (NonSatellitePositioningMethods, s)
           else if accuracy = level_value GCLUE_ACCURACY_LEVEL_EXACT
           then (AllPositioningMethods, s)
           else (NoPositioningMethods, s)))"

text \<open>
  The time threshold of \<^verbatim>\<open>configureClient\<close>:
  \<^verbatim>\<open>qMax(uint(msecs), 0u) / 1000u\<close>. The conversion of the \<^verbatim>\<open>int\<close> to \<^verbatim>\<open>uint\<close> is
  \<open>word_of_int\<close> (modulo \<open>2 ^ 32\<close>); the maximum and the division are unsigned.
\<close>

definition threshold_secs :: "int \<Rightarrow> 32 word" where
  "threshold_secs msecs = max (word_of_int msecs) 0 div 1000"

definition requested_level :: "PositioningMethods \<Rightarrow> GClueAccuracyLevel" where
  "requested_level methods =
     (case methods of
        SatellitePositioningMethods \<Rightarrow> GCLUE_ACCURACY_LEVEL_EXACT
      | NonSatellitePositioningMethods \<Rightarrow> GCLUE_ACCURACY_LEVEL_STREET
      | AllPositioningMethods \<Rightarrow> GCLUE_ACCURACY_LEVEL_EXACT
      | _ \<Rightarrow> GCLUE_ACCURACY_LEVEL_NONE)"

definition configureClient :: "Source \<Rightarrow> bool \<times> Source" where
  "configureClient s =
     (case m_client s of
        None \<Rightarrow> (False, s)
      | Some c \<Rightarrow>
          (let desktopId0 = QT_GEOCLUE_APP_DESKTOP_ID s;
               desktopId1 = (if desktopId0 = [] then applicationName s else desktopId0)
           in if desktopId1 = [] then (False, setError AccessError s)
              else
                (let c1 = c\<lparr>desktopId := Some desktopId1\<rparr>;
                     msecs = updateInterval s;
                     secs = threshold_secs msecs;
                     c2 = c1\<lparr>timeThreshold := Some secs\<rparr>;
                     methods = preferredPositioningMethods s;
                     c3 = c2\<lparr>requestedAccuracyLevel := Some (requested_level methods)\<rparr>
                 in (True, s\<lparr>m_client := Some c3\<rparr>))))"

text \<open>
  The three functions that issue a call append it to the calls in flight; the lambda
  each connects to the watcher's \<^verbatim>\<open>finished\<close> signal is the function of the same name
  ending in \<open>_finished\<close> below.
\<close>

definition createClient :: "Source \<Rightarrow> Source" where
  "createClient s = s\<lparr>pending := pending s @ [GetClient]\<rparr>"

definition startClient :: "Source \<Rightarrow> Source" where
  "startClient s =
     (if \<not> m_running s \<and> m_requestTimer s = None then s
      else case m_client s of
             None \<Rightarrow> createClient s
           | Some c \<Rightarrow> s\<lparr>pending := pending s @ [Start (client_id c)]\<rparr>)"

definition stopClient :: "Source \<Rightarrow> Source" where
  "stopClient s =
     (if m_requestTimer s \<noteq> None \<or> m_running s \<or> m_client s = None then s
      else case m_client s of
             None \<Rightarrow> s
           | Some c \<Rightarrow> s\<lparr>pending := pending s @ [Stop (client_id c)]\<rparr>)"

text \<open>
  Modelled from the spec: the base class \<^verbatim>\<open>QGeoPositionInfoSource\<close> is outside this
  source file; its setters store the value that \<^verbatim>\<open>updateInterval()\<close> and
  \<^verbatim>\<open>preferredPositioningMethods()\<close> return.
\<close>

definition setUpdateInterval :: "int \<Rightarrow> Source \<Rightarrow> Source" where
  "setUpdateInterval msec s = snd (configureClient (s\<lparr>updateInterval := msec\<rparr>))"

definition setPreferredPositioningMethods :: "PositioningMethods \<Rightarrow> Source \<Rightarrow> Source" where
  "setPreferredPositioningMethods methods s =
     snd (configureClient (s\<lparr>preferredPositioningMethods := methods\<rparr>))"

definition minimumUpdateInterval :: int where
  "minimumUpdateInterval = MINIMUM_UPDATE_INTERVAL"

definition startUpdates :: "Source \<Rightarrow> Source" where
  "startUpdates s =
     (if m_running s then s
      else
        (let s1 = s\<lparr>m_error := NoError\<rparr>;
             s2 = s1\<lparr>m_running := True\<rparr>;
             s3 = startClient s2
         in if isValid (m_lastPosition s3)
            then s3\<lparr>emitted := emitted s3 @ [QueuedPositionUpdated (m_lastPosition s3)]\<rparr>
            else s3))"

definition stopUpdates :: "Source \<Rightarrow> Source" where
  "stopUpdates s =
     (if \<not> m_running s then s
      else stopClient (s\<lparr>m_running := False\<rparr>))"

definition requestUpdate :: "int \<Rightarrow> Source \<Rightarrow> Source" where
  "requestUpdate timeout s =
     (if m_requestTimer s \<noteq> None then s
      else
        (let s1 = s\<lparr>m_error := NoError\<rparr>
         in if timeout < minimumUpdateInterval \<and> timeout \<noteq> 0
            then setError UnknownSourceError s1
            else startClient
                   (s1\<lparr>m_requestTimer :=
                         Some (if timeout \<noteq> 0 then timeout else UPDATE_TIMEOUT_COLD_START)\<rparr>)))"

definition requestUpdateTimeout :: "Source \<Rightarrow> Source" where
  "requestUpdateTimeout s = stopClient (setError UnknownSourceError s)"

text \<open>
  The fix \<^verbatim>\<open>handleNewLocation\<close> builds from a valid location object (the \<^verbatim>\<open>else\<close>
  branch, up to the emission). \<open>now\<close> is what \<^verbatim>\<open>QDateTime::currentDateTime()\<close> returns,
  in milliseconds since the epoch. \<^verbatim>\<open>qint64(ts.m_seconds)\<close> reads the unsigned seconds
  as a signed 64-bit number; the quotient of the microseconds is converted the same way
  by the call of \<^verbatim>\<open>addMSecs\<close>.
\<close>

definition newPosition :: "int \<Rightarrow> Location \<Rightarrow> QGeoPositionInfo" where
  "newPosition now location =
     (let coordinate0 = newQGeoCoordinate (loc_latitude location) (loc_longitude location);
          altitude0 = loc_altitude location;
          coordinate1 = (if dgreater altitude0 lowest then setAltitude altitude0 coordinate0
                         else coordinate0);
          ts = loc_timestamp location;
          p0 = (if m_seconds ts = 0 \<and> m_microseconds ts = 0
                then newQGeoPositionInfo coordinate1 (MSecsSinceEpoch now)
                else
                  (let dt0 = fromSecsSinceEpoch (sint (m_seconds ts));
                       dt1 = addMSecs (sint (m_microseconds ts div 1000)) dt0
                   in newQGeoPositionInfo coordinate1 dt1));
          p1 = setAttribute HorizontalAccuracy (loc_accuracy location) p0;
          speed = loc_speed location;
          p2 = (if dgreater_eq speed (Finite 0) then setAttribute GroundSpeed speed p1 else p1);
          heading = loc_heading location;
          p3 = (if dgreater_eq heading (Finite 0) then setAttribute Direction heading p2 else p2)
      in p3)"

text \<open>
  \<^verbatim>\<open>handleNewLocation\<close>: \<open>location\<close> is what the location object at the new path reads
  as, \<open>None\<close> when the interface to it is not valid.
\<close>

definition handleNewLocation :: "Location option \<Rightarrow> int \<Rightarrow> Source \<Rightarrow> Source" where
  "handleNewLocation location now s =
     (let s1 = (if m_requestTimer s \<noteq> None then s\<lparr>m_requestTimer := None\<rparr> else s);
          s2 = (case location of
                  None \<Rightarrow> s1
                | Some l \<Rightarrow>
                    (let p = newPosition now l
                     in s1\<lparr>m_lastPosition := p, emitted := emitted s1 @ [PositionUpdated p]\<rparr>))
      in stopClient s2)"

subsection \<open>The handlers of the replies\<close>

text \<open>
  A fault is a run the source does not survive (a member call through the null
  \<^verbatim>\<open>m_client\<close>), or an event that cannot occur in the state (a reply to a call that
  is not in flight, the expiry of a timer that is not active, a signal of a proxy that
  does not exist).
\<close>

datatype Fault = NullClient | NotEnabled

text \<open>The reply to \<^verbatim>\<open>GetClient\<close>: an error, or a path, with what \<^verbatim>\<open>isValid()\<close> of the
  proxy made for the path returns.\<close>

datatype GetClientReply = GetClientError | GetClientPath bool

text \<open>The reply to \<^verbatim>\<open>Start\<close>: an error, or success together with what the handler then
  reads: the path \<^verbatim>\<open>m_client->location()\<close> returns, the location object at that path
  and the current time.\<close>

datatype StartReply = StartError | StartOk string "Location option" int

definition newClient :: "nat \<Rightarrow> Client" where
  "newClient n =
     \<lparr>client_id = n, started = False, desktopId = None, timeThreshold = None,
      requestedAccuracyLevel = None\<rparr>"

definition createClient_finished :: "GetClientReply \<Rightarrow> Source \<Rightarrow> Source" where
  "createClient_finished reply s =
     (case reply of
        GetClientError \<Rightarrow> setError AccessError s
      | GetClientPath valid \<Rightarrow>
          (let s1 = s\<lparr>m_client := Some (newClient (next_client s)),
                      next_client := Suc (next_client s)\<rparr>
           in if \<not> valid then setError AccessError (s1\<lparr>m_client := None\<rparr>)
              else
                (case configureClient s1 of
                   (True, s2) \<Rightarrow> startClient s2
                 | (False, s2) \<Rightarrow> s2)))"

definition mark_started :: "nat \<Rightarrow> Client \<Rightarrow> Client" where
  "mark_started i c = (if client_id c = i then c\<lparr>started := True\<rparr> else c)"

definition startClient_finished :: "nat \<Rightarrow> StartReply \<Rightarrow> Source \<Rightarrow> Fault + Source" where
  "startClient_finished i reply s =
     (case reply of
        StartError \<Rightarrow> Inr (setError AccessError (s\<lparr>m_client := None\<rparr>))
      | StartOk path location now \<Rightarrow>
          (case m_client s of
             None \<Rightarrow> Inl NullClient
           | Some c \<Rightarrow>
               (let s1 = s\<lparr>m_client := Some (mark_started i c)\<rparr>
                in if path = [] \<or> path = ''/'' then Inr s1
                   else Inr (handleNewLocation location now s1))))"

definition stopClient_finished :: "bool \<Rightarrow> Source \<Rightarrow> Source" where
  "stopClient_finished ok s =
     (let s1 = (if \<not> ok then setError AccessError s else s)
      in s1\<lparr>m_client := None\<rparr>)"

subsection \<open>Events and runs\<close>

datatype Event =
    StartUpdates
  | StopUpdates
  | RequestUpdate int
  | SetUpdateInterval int
  | SetPreferredPositioningMethods PositioningMethods
  | TimerTimeout
  | GetClientFinished GetClientReply
  | StartFinished nat StartReply
  | StopFinished nat bool
  | LocationUpdated "Location option" int

text \<open>
  One event. A reply takes its call out of the calls in flight, whatever the order the
  calls were made in. The single-shot timer is inactive when its slot runs. The
  \<^verbatim>\<open>LocationUpdated\<close> signal is connected to the proxy, so it needs one.
\<close>

fun step :: "Source \<Rightarrow> Event \<Rightarrow> Fault + Source" where
  "step s StartUpdates = Inr (startUpdates s)"
| "step s StopUpdates = Inr (stopUpdates s)"
| "step s (RequestUpdate timeout) = Inr (requestUpdate timeout s)"
| "step s (SetUpdateInterval msec) = Inr (setUpdateInterval msec s)"
| "step s (SetPreferredPositioningMethods methods) =
     Inr (setPreferredPositioningMethods methods s)"
| "step s TimerTimeout =
     (if m_requestTimer s = None then Inl NotEnabled
      else Inr (requestUpdateTimeout (s\<lparr>m_requestTimer := None\<rparr>)))"
| "step s (GetClientFinished reply) =
     (if GetClient \<in> set (pending s)
      then Inr (createClient_finished reply (s\<lparr>pending := remove1 GetClient (pending s)\<rparr>))
      else Inl NotEnabled)"
| "step s (StartFinished i reply) =
     (if Start i \<in> set (pending s)
      then startClient_finished i reply (s\<lparr>pending := remove1 (Start i) (pending s)\<rparr>)
      else Inl NotEnabled)"
| "step s (StopFinished i ok) =
     (if Stop i \<in> set (pending s)
      then Inr (stopClient_finished ok (s\<lparr>pending := remove1 (Stop i) (pending s)\<rparr>))
      else Inl NotEnabled)"
| "step s (LocationUpdated location now) =
     (if m_client s = None then Inl NotEnabled
      else Inr (handleNewLocation location now s))"

fun run :: "Source \<Rightarrow> Event list \<Rightarrow> Fault + Source" where
  "run s [] = Inr s"
| "run s (e # es) = (case step s e of Inl f \<Rightarrow> Inl f | Inr s1 \<Rightarrow> run s1 es)"

subsection \<open>Construction and the last position\<close>

text \<open>
  The file of the last position holds what \<^verbatim>\<open>QDataStream\<close> wrote. The stream operators
  of \<^verbatim>\<open>QGeoPositionInfo\<close> are outside this source file: they are the parameters \<open>enc\<close>
  and \<open>dec\<close>. An absent file is \<open>None\<close> and cannot be opened for reading; \<open>writable\<close>
  says that \<^verbatim>\<open>QSaveFile::open\<close> succeeds and \<open>committed\<close> that \<^verbatim>\<open>commit\<close> replaces the
  file.
\<close>

definition restoreLastPosition :: "('f \<Rightarrow> QGeoPositionInfo) \<Rightarrow> 'f option \<Rightarrow> Source \<Rightarrow> Source" where
  "restoreLastPosition dec file s =
     (case file of
        None \<Rightarrow> s
      | Some bytes \<Rightarrow> s\<lparr>m_lastPosition := dec bytes\<rparr>)"

definition saveLastPosition ::
  "(QGeoPositionInfo \<Rightarrow> 'f) \<Rightarrow> bool \<Rightarrow> bool \<Rightarrow> Source \<Rightarrow> 'f option \<Rightarrow> 'f option" where
  "saveLastPosition enc writable committed s file =
     (if \<not> isValid (m_lastPosition s) then file
      else if writable
      then (let out = enc (newQGeoPositionInfo (coordinate (m_lastPosition s))
                                                (timestamp (m_lastPosition s)))
            in if committed then Some out else file)
      else file)"

text \<open>The members before the constructor's body runs, then the body.\<close>

definition members :: "string \<Rightarrow> string \<Rightarrow> Source" where
  "members env app =
     \<lparr>m_running = False, m_error = NoError, m_requestTimer = None, m_client = None,
      m_lastPosition = defaultQGeoPositionInfo, updateInterval = 0,
      preferredPositioningMethods = NoPositioningMethods,
      QT_GEOCLUE_APP_DESKTOP_ID = env, applicationName = app,
      pending = [], emitted = [], next_client = 0\<rparr>"

definition constructor ::
  "string \<Rightarrow> string \<Rightarrow> ('f \<Rightarrow> QGeoPositionInfo) \<Rightarrow> 'f option \<Rightarrow> Source" where
  "constructor env app dec file =
     restoreLastPosition dec file
       (setPreferredPositioningMethods AllPositioningMethods (members env app))"

subsection \<open>Concrete states for the examples\<close>

text \<open>A source whose application name is set, with no file of a last position.\<close>

definition fresh_source :: Source where
  "fresh_source = constructor [] ''app'' (\<lambda>u :: unit. defaultQGeoPositionInfo) None"

text \<open>A source with no desktop id and no application name.\<close>

definition anonymous_source :: Source where
  "anonymous_source = constructor [] [] (\<lambda>u :: unit. defaultQGeoPositionInfo) None"

text \<open>A source that holds a proxy and whose update interval is \<open>-1\<close> ms.\<close>

definition negative_interval_source :: Source where
  "negative_interval_source =
     fresh_source\<lparr>m_client := Some (newClient 0), updateInterval := - 1\<rparr>"

text \<open>A location object with the altitude at the floor value, a negative speed and the
  timestamp (1700000000, 500000).\<close>

definition example_location :: Location where
  "example_location =
     \<lparr>loc_latitude = Finite 52, loc_longitude = Finite 13, loc_altitude = lowest,
      loc_accuracy = Finite 10, loc_speed = Finite (- 1), loc_heading = Finite 90,
      loc_timestamp = \<lparr>m_seconds = 1700000000, m_microseconds = 500000\<rparr>\<rparr>"

text \<open>The same location object with the timestamp (2 ^ 63, 0).\<close>

definition far_location :: Location where
  "far_location =
     example_location
       \<lparr>loc_timestamp := \<lparr>m_seconds = 9223372036854775808, m_microseconds = 0\<rparr>\<rparr>"

text \<open>A valid fix with an altitude and a ground speed.\<close>

definition example_fix :: QGeoPositionInfo where
  "example_fix =
     setAttribute GroundSpeed (Finite 3)
       (newQGeoPositionInfo
          (setAltitude (Finite 35) (newQGeoCoordinate (Finite 52) (Finite 13)))
          (MSecsSinceEpoch 1700000000500))"

subsection \<open>The lifecycle invariant\<close>

text \<open>
  Demand: continuous updates are wanted or a single request is outstanding. The
  invariant of the lifecycle has two parts. The numbers of the proxy and of the
  \<^verbatim>\<open>Start\<close> calls in flight are below the next fresh number. And when there is no
  demand and a proxy exists, either a \<^verbatim>\<open>Stop\<close> call is in flight (its reply deletes
  the proxy), or the proxy has not been started and no \<^verbatim>\<open>Start\<close> call on it is in
  flight.
\<close>

definition demand :: "Source \<Rightarrow> bool" where
  "demand s = (m_running s \<or> m_requestTimer s \<noteq> None)"

definition ids_fresh :: "Source \<Rightarrow> bool" where
  "ids_fresh s =
     ((\<forall>c. m_client s = Some c \<longrightarrow> client_id c < next_client s)
      \<and> (\<forall>i. Start i \<in> set (pending s) \<longrightarrow> i < next_client s))"

definition stop_covers :: "Source \<Rightarrow> bool" where
  "stop_covers s =
     (\<not> demand s \<longrightarrow>
        (\<forall>c. m_client s = Some c \<longrightarrow>
           (\<exists>i. Stop i \<in> set (pending s))
           \<or> (\<not> started c \<and> Start (client_id c) \<notin> set (pending s))))"

definition lifecycle_inv :: "Source \<Rightarrow> bool" where
  "lifecycle_inv s = (ids_fresh s \<and> stop_covers s)"

text \<open>
  For the converse. A run is orderly when no reply to a creation or a start reports a
  failure, every created proxy is valid, and every reply is the reply to the oldest call
  in flight. A call in flight is live when no \<^verbatim>\<open>Stop\<close> call comes after it. The
  source is supplied when a desktop id or an application name is set and, under demand,
  a creation is live, or a start of the current proxy is live, or the proxy has been
  started and no stop is in flight (or, with no proxy, a start call is live: its reply
  is the one the source does not survive).
\<close>

definition admissible :: "Source \<Rightarrow> Event \<Rightarrow> bool" where
  "admissible s e =
     (case e of
        GetClientFinished reply \<Rightarrow> reply = GetClientPath True \<and> take 1 (pending s) = [GetClient]
      | StartFinished i reply \<Rightarrow> reply \<noteq> StartError \<and> take 1 (pending s) = [Start i]
      | StopFinished i ok \<Rightarrow> take 1 (pending s) = [Stop i]
      | _ \<Rightarrow> True)"

fun orderly :: "Source \<Rightarrow> Event list \<Rightarrow> bool" where
  "orderly s [] = True"
| "orderly s (e # es) =
     (admissible s e \<and> (case step s e of Inl f \<Rightarrow> True | Inr s1 \<Rightarrow> orderly s1 es))"

definition live :: "Call \<Rightarrow> Call list \<Rightarrow> bool" where
  "live c calls = (\<exists>ys zs. calls = ys @ c # zs \<and> (\<forall>i. Stop i \<notin> set zs))"

definition configured :: "Source \<Rightarrow> bool" where
  "configured s = (QT_GEOCLUE_APP_DESKTOP_ID s \<noteq> [] \<or> applicationName s \<noteq> [])"

definition supplied :: "Source \<Rightarrow> bool" where
  "supplied s =
     ((QT_GEOCLUE_APP_DESKTOP_ID s \<noteq> [] \<or> applicationName s \<noteq> [])
      \<and> (demand s \<longrightarrow>
            live GetClient (pending s)
            \<or> (m_client s = None \<and> (\<exists>i. live (Start i) (pending s)))
            \<or> (\<exists>c. m_client s = Some c
                  \<and> (live (Start (client_id c)) (pending s)
                      \<or> (started c \<and> (\<forall>i. Stop i \<notin> set (pending s)))))))"

subsection \<open>Concrete runs for the examples\<close>

text \<open>Continuous updates are started and the session is created and configured; the
  \<^verbatim>\<open>Start\<close> call is in flight in \<open>starting_source\<close>.\<close>

definition create_run :: "Event list" where
  "create_run = [StartUpdates, GetClientFinished (GetClientPath True)]"

definition starting_source :: Source where
  "starting_source = projr (run fresh_source create_run)"

text \<open>The same, and the \<^verbatim>\<open>Start\<close> call has returned with no location yet.\<close>

definition started_run :: "Event list" where
  "started_run =
     [StartUpdates, GetClientFinished (GetClientPath True), StartFinished 0 (StartOk [] None 0)]"

text \<open>Continuous updates are started and the creation of the session fails.\<close>

definition failed_create_run :: "Event list" where
  "failed_create_run = [StartUpdates, GetClientFinished GetClientError]"



text \<open>A single update with no timeout is requested, and the session is created and
  started with no location yet: the timer is running.\<close>

definition waiting_source :: Source where
  "waiting_source =
     projr (run fresh_source
       [RequestUpdate 0, GetClientFinished (GetClientPath True),
        StartFinished 0 (StartOk [] None 0)])"

text \<open>Updates are stopped and started again while the session is started; the reply to
  \<^verbatim>\<open>Stop\<close> arrives before the reply to the second \<^verbatim>\<open>Start\<close>.\<close>

definition restart_run :: "Event list" where
  "restart_run =
     [StartUpdates, GetClientFinished (GetClientPath True), StartFinished 0 (StartOk [] None 0),
      StopUpdates, StartUpdates, StopFinished 0 True, StartFinished 0 (StartOk [] None 0)]"

section \<open>Evaluating concrete states\<close>

lemmas source_defs =
  setError_def configureClient_def createClient_def startClient_def stopClient_def
  setUpdateInterval_def setPreferredPositioningMethods_def minimumUpdateInterval_def
  MINIMUM_UPDATE_INTERVAL_def UPDATE_TIMEOUT_COLD_START_def startUpdates_def stopUpdates_def
  requestUpdate_def requestUpdateTimeout_def handleNewLocation_def createClient_finished_def
  startClient_finished_def stopClient_finished_def mark_started_def newClient_def isValid_def
  defaultQGeoPositionInfo_def newQGeoPositionInfo_def newQGeoCoordinate_def in_range_def
  threshold_secs_def requested_level_def Let_def

lemma fresh_source_eq:
  "fresh_source = (members [] ''app'')\<lparr>preferredPositioningMethods := AllPositioningMethods\<rparr>"
  by (simp add: fresh_source_def constructor_def restoreLastPosition_def
      setPreferredPositioningMethods_def configureClient_def members_def)

lemma anonymous_source_eq:
  "anonymous_source = (members [] [])\<lparr>preferredPositioningMethods := AllPositioningMethods\<rparr>"
  by (simp add: anonymous_source_def constructor_def restoreLastPosition_def
      setPreferredPositioningMethods_def configureClient_def members_def)

lemma waiting_source_eq:
  "waiting_source = (members [] ''app'')
     \<lparr>preferredPositioningMethods := AllPositioningMethods,
      m_requestTimer := Some 120000,
      m_client := Some \<lparr>client_id = 0, started = True, desktopId = Some ''app'',
                        timeThreshold = Some 0,
                        requestedAccuracyLevel = Some GCLUE_ACCURACY_LEVEL_EXACT\<rparr>,
      next_client := 1\<rparr>"
  by (simp add: waiting_source_def fresh_source_eq members_def source_defs)

lemma starting_source_eq:
  "starting_source = (members [] ''app'')
     \<lparr>preferredPositioningMethods := AllPositioningMethods,
      m_running := True,
      m_client := Some \<lparr>client_id = 0, started = False, desktopId = Some ''app'',
                        timeThreshold = Some 0,
                        requestedAccuracyLevel = Some GCLUE_ACCURACY_LEVEL_EXACT\<rparr>,
      pending := [Start 0],
      next_client := 1\<rparr>"
  by (simp add: starting_source_def create_run_def fresh_source_eq members_def source_defs)


lemma run_started_run:
  "run fresh_source started_run = Inr ((members [] ''app'')
     \<lparr>preferredPositioningMethods := AllPositioningMethods,
      m_running := True,
      m_client := Some \<lparr>client_id = 0, started = True, desktopId = Some ''app'',
                        timeThreshold = Some 0,
                        requestedAccuracyLevel = Some GCLUE_ACCURACY_LEVEL_EXACT\<rparr>,
      next_client := 1\<rparr>)"
  by (simp add: started_run_def fresh_source_eq members_def source_defs)

lemma orderly_started_run: "orderly fresh_source started_run"
  by (simp add: started_run_def admissible_def fresh_source_eq members_def source_defs)

text \<open>When the reply to \<^verbatim>\<open>Stop\<close> has deleted the proxy, the handler of a successful
  \<^verbatim>\<open>Start\<close> reply calls \<^verbatim>\<open>location()\<close> through the null pointer.\<close>

lemma run_restart_run: "run fresh_source restart_run = Inl NullClient"
  by (simp add: restart_run_def fresh_source_eq members_def source_defs)

section \<open>The capability query\<close>

lemma level_value_cases: "(\<forall>l. level_value l \<noteq> a) \<longleftrightarrow> a \<notin> {0, 1, 4, 5, 6, 8}"
proof
  assume h: "\<forall>l. level_value l \<noteq> a"
  show "a \<notin> {0, 1, 4, 5, 6, 8}"
    using h [rule_format, of GCLUE_ACCURACY_LEVEL_NONE]
      h [rule_format, of GCLUE_ACCURACY_LEVEL_COUNTRY]
      h [rule_format, of GCLUE_ACCURACY_LEVEL_CITY]
      h [rule_format, of GCLUE_ACCURACY_LEVEL_NEIGHBORHOOD]
      h [rule_format, of GCLUE_ACCURACY_LEVEL_STREET]
      h [rule_format, of GCLUE_ACCURACY_LEVEL_EXACT]
    by auto
next
  assume h: "a \<notin> {0, 1, 4, 5, 6, 8}"
  show "\<forall>l. level_value l \<noteq> a"
  proof
    fix l
    show "level_value l \<noteq> a"
      using h by (cases l) auto
  qed
qed

text \<open>
  Claim C8. The capability query maps the available accuracy level: country, city,
  neighborhood and street give the non-satellite methods, exact gives all methods, none
  and every value that is no level give no methods, all without touching the state; a
  property that cannot be read gives no methods and is the one case that sets and
  emits an error, \<open>AccessError\<close>.
\<close>

theorem supportedPositioningMethods_mapping:
  "supportedPositioningMethods (Some (level_value GCLUE_ACCURACY_LEVEL_COUNTRY)) s
     = (NonSatellitePositioningMethods, s)
   \<and> supportedPositioningMethods (Some (level_value GCLUE_ACCURACY_LEVEL_CITY)) s
     = (NonSatellitePositioningMethods, s)
   \<and> supportedPositioningMethods (Some (level_value GCLUE_ACCURACY_LEVEL_NEIGHBORHOOD)) s
     = (NonSatellitePositioningMethods, s)
   \<and> supportedPositioningMethods (Some (level_value GCLUE_ACCURACY_LEVEL_STREET)) s
     = (NonSatellitePositioningMethods, s)
   \<and> supportedPositioningMethods (Some (level_value GCLUE_ACCURACY_LEVEL_EXACT)) s
     = (AllPositioningMethods, s)
   \<and> supportedPositioningMethods (Some (level_value GCLUE_ACCURACY_LEVEL_NONE)) s
     = (NoPositioningMethods, s)
   \<and> ((\<forall>l. level_value l \<noteq> accuracy) \<longrightarrow>
        supportedPositioningMethods (Some accuracy) s = (NoPositioningMethods, s))
   \<and> snd (supportedPositioningMethods (Some accuracy) s) = s
   \<and> supportedPositioningMethods None s
     = (NoPositioningMethods,
        s\<lparr>m_error := AccessError, emitted := emitted s @ [ErrorOccurred AccessError]\<rparr>)"
  by (simp add: supportedPositioningMethods_def setError_def level_value_cases)

theorem supportedPositioningMethods_mapping_witness:
  "(\<forall>l. level_value l \<noteq> 7)
   \<and> supportedPositioningMethods (Some 7) fresh_source = (NoPositioningMethods, fresh_source)
   \<and> supportedPositioningMethods (Some 6) fresh_source
       = (NonSatellitePositioningMethods, fresh_source)
   \<and> supportedPositioningMethods (Some 8) fresh_source = (AllPositioningMethods, fresh_source)
   \<and> fst (supportedPositioningMethods None fresh_source) = NoPositioningMethods
   \<and> m_error (snd (supportedPositioningMethods None fresh_source)) = AccessError
   \<and> emitted (snd (supportedPositioningMethods None fresh_source)) = [ErrorOccurred AccessError]"
  using supportedPositioningMethods_mapping [of fresh_source 7]
  by (simp add: level_value_cases fresh_source_eq members_def)

section \<open>The fix built from a notification\<close>

lemma m_lastPosition_stopClient: "m_lastPosition (stopClient s) = m_lastPosition s"
  by (simp add: stopClient_def split: option.split)

lemma m_lastPosition_handleNewLocation:
  "m_lastPosition (handleNewLocation (Some l) now s) = newPosition now l"
  by (simp add: handleNewLocation_def Let_def m_lastPosition_stopClient)

lemma timestamp_setAttribute: "timestamp (setAttribute a v p) = timestamp p"
  by (simp add: setAttribute_def)

lemma timestamp_newPosition:
  "timestamp (newPosition now l) =
     (if m_seconds (loc_timestamp l) = 0 \<and> m_microseconds (loc_timestamp l) = 0
      then MSecsSinceEpoch now
      else MSecsSinceEpoch (sint (m_seconds (loc_timestamp l)) * 1000
                            + sint (m_microseconds (loc_timestamp l) div 1000)))"
  by (simp add: newPosition_def Let_def newQGeoPositionInfo_def fromSecsSinceEpoch_def
      timestamp_setAttribute)

text \<open>Seconds below \<open>2 ^ 63\<close> read the same as \<^verbatim>\<open>qint64\<close>; a quotient by 1000 always
  does.\<close>

lemma sint_eq_uint_64:
  fixes w :: "64 word"
  assumes "uint w < 2 ^ 63"
  shows "sint w = uint w"
proof -
  have "(0::int) \<le> 2 ^ 63"
    by simp
  then have "- (2 ^ 63) \<le> uint w"
    using uint_ge_0 [of w] by linarith
  then have "signed_take_bit 63 (uint w) = uint w"
    using assms by (intro signed_take_bit_int_eq_self)
  then show ?thesis
    by (simp add: sint_uint)
qed

lemma sint_div_1000:
  fixes u :: "64 word"
  shows "sint (u div 1000) = uint u div 1000"
proof -
  have e: "uint (u div 1000) = uint u div 1000"
    by (simp add: uint_div_distrib)
  have "uint u < 18446744073709551616"
    using uint_lt2p [of u] by simp
  then have "uint u div 1000 < 9223372036854775808"
    by arith
  then have "uint (u div 1000) < 2 ^ 63"
    unfolding e by simp
  then show ?thesis
    using sint_eq_uint_64 e by simp
qed

text \<open>
  Claim C6, amended. For every notification whose location object resolves, the
  timestamp of the stored fix is the current time when the reported seconds and
  microseconds are both zero; otherwise it is the reported seconds, read as a signed
  64-bit number by \<^verbatim>\<open>qint64(ts.m_seconds)\<close>, since the epoch plus the microseconds
  divided by 1000, in milliseconds. For reported seconds below \<open>2 ^ 63\<close> that is the
  reported seconds since the epoch themselves.
\<close>

theorem handleNewLocation_timestamp:
  "(m_seconds (loc_timestamp l) = 0 \<and> m_microseconds (loc_timestamp l) = 0 \<longrightarrow>
      timestamp (m_lastPosition (handleNewLocation (Some l) now s)) = MSecsSinceEpoch now)
   \<and> (\<not> (m_seconds (loc_timestamp l) = 0 \<and> m_microseconds (loc_timestamp l) = 0) \<longrightarrow>
      timestamp (m_lastPosition (handleNewLocation (Some l) now s)) =
        MSecsSinceEpoch (sint (m_seconds (loc_timestamp l)) * 1000
                         + uint (m_microseconds (loc_timestamp l)) div 1000))
   \<and> (\<not> (m_seconds (loc_timestamp l) = 0 \<and> m_microseconds (loc_timestamp l) = 0)
        \<and> uint (m_seconds (loc_timestamp l)) < 2 ^ 63 \<longrightarrow>
      timestamp (m_lastPosition (handleNewLocation (Some l) now s)) =
        MSecsSinceEpoch (uint (m_seconds (loc_timestamp l)) * 1000
                         + uint (m_microseconds (loc_timestamp l)) div 1000))"
  by (simp add: m_lastPosition_handleNewLocation timestamp_newPosition sint_eq_uint_64
      sint_div_1000)

text \<open>The timestamp (1700000000, 500000) gives that second plus 500 ms; (0, 0) gives
  the current time, here 42; (2 ^ 63, 0) gives \<open>- (2 ^ 63)\<close> seconds.\<close>

theorem handleNewLocation_timestamp_witness:
  "m_seconds (loc_timestamp example_location) = 1700000000
   \<and> m_microseconds (loc_timestamp example_location) = 500000
   \<and> uint (m_seconds (loc_timestamp example_location)) < 2 ^ 63
   \<and> timestamp (m_lastPosition (handleNewLocation (Some example_location) 42 fresh_source))
       = MSecsSinceEpoch (1700000000 * 1000 + 500)
   \<and> timestamp (m_lastPosition (handleNewLocation
         (Some (example_location\<lparr>loc_timestamp := \<lparr>m_seconds = 0, m_microseconds = 0\<rparr>\<rparr>))
         42 fresh_source))
       = MSecsSinceEpoch 42
   \<and> timestamp (m_lastPosition (handleNewLocation (Some far_location) 42 fresh_source))
       = MSecsSinceEpoch (- 9223372036854775808000)"
  using handleNewLocation_timestamp [of example_location 42 fresh_source]
    handleNewLocation_timestamp
      [of "example_location\<lparr>loc_timestamp := \<lparr>m_seconds = 0, m_microseconds = 0\<rparr>\<rparr>"
          42 fresh_source]
    handleNewLocation_timestamp [of far_location 42 fresh_source]
  by (simp add: example_location_def far_location_def)

text \<open>As the claim states it, every timestamp other than (0, 0) gives the reported
  seconds since the epoch: at (2 ^ 63, 0) the fix is stamped \<open>2 ^ 63\<close> seconds before
  the epoch.\<close>

theorem handleNewLocation_timestamp_wraps:
  "uint (m_seconds (loc_timestamp far_location)) = 9223372036854775808
   \<and> m_microseconds (loc_timestamp far_location) = 0
   \<and> timestamp (m_lastPosition (handleNewLocation (Some far_location) 42 fresh_source))
       = MSecsSinceEpoch (- 9223372036854775808000)
   \<and> timestamp (m_lastPosition (handleNewLocation (Some far_location) 42 fresh_source))
       \<noteq> MSecsSinceEpoch (9223372036854775808 * 1000 + 0 div 1000)"
  by (simp add: far_location_def example_location_def m_lastPosition_handleNewLocation
      timestamp_newPosition)

lemma altitude_newPosition:
  "altitude (coordinate (newPosition now l)) =
     (if dgreater (loc_altitude l) lowest then Some (loc_altitude l) else None)"
  by (simp add: newPosition_def Let_def newQGeoPositionInfo_def newQGeoCoordinate_def
      setAltitude_def setAttribute_def)

lemma attributes_newPosition:
  "attributes (newPosition now l) =
     (\<lambda>a. case a of
        HorizontalAccuracy \<Rightarrow> Some (loc_accuracy l)
      | GroundSpeed \<Rightarrow>
          (if dgreater_eq (loc_speed l) (Finite 0) then Some (loc_speed l) else None)
      | Direction \<Rightarrow>
          (if dgreater_eq (loc_heading l) (Finite 0) then Some (loc_heading l) else None))"
  by (auto simp: newPosition_def Let_def newQGeoPositionInfo_def setAttribute_def fun_eq_iff
      split: Attribute.split)

text \<open>The two comparisons of the source, on the values of a double.\<close>

lemma dgreater_lowest_iff:
  "dgreater d lowest \<longleftrightarrow>
     (case d of Finite x \<Rightarrow> - ((2 ^ 53 - 1) * 2 ^ 971) < x | PosInf \<Rightarrow> True | _ \<Rightarrow> False)"
  by (cases d) (simp_all add: dgreater_def lowest_def)

lemma dgreater_eq_zero_iff:
  "dgreater_eq d (Finite 0) \<longleftrightarrow>
     (case d of Finite x \<Rightarrow> 0 \<le> x | PosInf \<Rightarrow> True | _ \<Rightarrow> False)"
  by (cases d) (auto simp add: dgreater_eq_def)

text \<open>
  Claim C7. For every notification whose location object resolves, the coordinate of
  the stored fix has an altitude exactly when the reported altitude is strictly above
  the floor value \<open>lowest\<close>, and then it is the reported value; the ground speed and the
  direction are set exactly when the reported speed and heading are greater than or
  equal to zero, and then to the reported values.
\<close>

theorem handleNewLocation_optional_fields:
  "altitude (coordinate (m_lastPosition (handleNewLocation (Some l) now s))) =
     (if dgreater (loc_altitude l) lowest then Some (loc_altitude l) else None)
   \<and> attributes (m_lastPosition (handleNewLocation (Some l) now s)) GroundSpeed =
     (if dgreater_eq (loc_speed l) (Finite 0) then Some (loc_speed l) else None)
   \<and> attributes (m_lastPosition (handleNewLocation (Some l) now s)) Direction =
     (if dgreater_eq (loc_heading l) (Finite 0) then Some (loc_heading l) else None)"
  by (simp add: m_lastPosition_handleNewLocation altitude_newPosition attributes_newPosition)

text \<open>An altitude at the floor value stays unset, an altitude of \<open>-430\<close> is set; a
  speed of \<open>-1\<close> stays unset, a heading of 90 is set.\<close>

theorem handleNewLocation_optional_fields_witness:
  "altitude (coordinate (m_lastPosition
       (handleNewLocation (Some example_location) 42 fresh_source))) = None
   \<and> altitude (coordinate (m_lastPosition (handleNewLocation
        (Some (example_location\<lparr>loc_altitude := Finite (- 430)\<rparr>)) 42 fresh_source)))
       = Some (Finite (- 430))
   \<and> attributes (m_lastPosition (handleNewLocation (Some example_location) 42 fresh_source))
        GroundSpeed = None
   \<and> attributes (m_lastPosition (handleNewLocation (Some example_location) 42 fresh_source))
        Direction = Some (Finite 90)"
  using handleNewLocation_optional_fields [of example_location 42 fresh_source]
    handleNewLocation_optional_fields
      [of "example_location\<lparr>loc_altitude := Finite (- 430)\<rparr>" 42 fresh_source]
  by (simp add: example_location_def dgreater_def dgreater_eq_def lowest_def)

section \<open>The last position\<close>

text \<open>
  Claim C9. For every valid stored fix, saving writes a fix made of its coordinate and
  timestamp only; when the stream operators read back what they wrote, a restore from
  the saved file returns the coordinate and the timestamp unchanged and no attribute
  (accuracy, speed, heading).
\<close>

theorem saveLastPosition_restore_roundtrip:
  assumes "isValid (m_lastPosition s)" and "\<forall>q. dec (enc q) = q"
  shows "saveLastPosition enc True True s stored
           = Some (enc (newQGeoPositionInfo (coordinate (m_lastPosition s))
                                             (timestamp (m_lastPosition s))))
         \<and> coordinate (m_lastPosition
               (restoreLastPosition dec (saveLastPosition enc True True s stored) s'))
             = coordinate (m_lastPosition s)
         \<and> timestamp (m_lastPosition
               (restoreLastPosition dec (saveLastPosition enc True True s stored) s'))
             = timestamp (m_lastPosition s)
         \<and> attributes (m_lastPosition
               (restoreLastPosition dec (saveLastPosition enc True True s stored) s'))
             = (\<lambda>a. None)"
  using assms
  by (simp add: saveLastPosition_def restoreLastPosition_def newQGeoPositionInfo_def Let_def)

theorem saveLastPosition_restore_roundtrip_witness:
  "isValid (m_lastPosition (fresh_source\<lparr>m_lastPosition := example_fix\<rparr>))
   \<and> (\<forall>q :: QGeoPositionInfo. id (id q) = q)
   \<and> attributes example_fix GroundSpeed = Some (Finite 3)
   \<and> attributes (m_lastPosition (restoreLastPosition id
         (saveLastPosition id True True (fresh_source\<lparr>m_lastPosition := example_fix\<rparr>) None)
         fresh_source)) GroundSpeed = None
   \<and> coordinate (m_lastPosition (restoreLastPosition id
         (saveLastPosition id True True (fresh_source\<lparr>m_lastPosition := example_fix\<rparr>) None)
         fresh_source))
       = \<lparr>latitude = Finite 52, longitude = Finite 13, altitude = Some (Finite 35)\<rparr>
   \<and> timestamp (m_lastPosition (restoreLastPosition id
         (saveLastPosition id True True (fresh_source\<lparr>m_lastPosition := example_fix\<rparr>) None)
         fresh_source)) = MSecsSinceEpoch 1700000000500"
  using saveLastPosition_restore_roundtrip
    [of "fresh_source\<lparr>m_lastPosition := example_fix\<rparr>" id id None fresh_source]
  by (simp add: example_fix_def isValid_def in_range_def setAttribute_def
      newQGeoPositionInfo_def setAltitude_def newQGeoCoordinate_def saveLastPosition_def
      restoreLastPosition_def)

section \<open>The time threshold\<close>

lemma uint_threshold_secs: "uint (threshold_secs msecs) = (msecs mod 2 ^ 32) div 1000"
  by (simp add: threshold_secs_def max_def uint_div_distrib uint_word_of_int)

lemma uint_threshold_secs_negative:
  assumes "- (2 ^ 31) \<le> msecs" and "msecs < 0"
  shows "uint (threshold_secs msecs) = (2 ^ 32 + msecs) div 1000"
proof -
  have "msecs mod 2 ^ 32 = (msecs + 2 ^ 32) mod 2 ^ 32"
    by simp
  also have "\<dots> = msecs + 2 ^ 32"
    using assms by (intro mod_pos_pos_trivial) auto
  finally show ?thesis
    by (simp add: uint_threshold_secs add.commute)
qed

text \<open>
  Claim C10. When \<^verbatim>\<open>configureClient\<close> configures the session, the time threshold it
  sets is the update interval converted to a 32-bit unsigned number and divided by 1000.
  For every negative interval of the \<^verbatim>\<open>int\<close> range the conversion wraps modulo
  \<open>2 ^ 32\<close>, so the threshold is \<open>(2 ^ 32 + interval) div 1000\<close> seconds and never
  zero: the maximum with \<^verbatim>\<open>0u\<close> comes after the conversion and clamps nothing.
\<close>

theorem configureClient_time_threshold_wraps:
  assumes "m_client s = Some c"
    and "QT_GEOCLUE_APP_DESKTOP_ID s \<noteq> [] \<or> applicationName s \<noteq> []"
    and "- (2 ^ 31) \<le> updateInterval s"
    and "updateInterval s < 0"
  shows "\<exists>c' t. configureClient s = (True, s\<lparr>m_client := Some c'\<rparr>)
           \<and> timeThreshold c' = Some t
           \<and> uint t = (2 ^ 32 + updateInterval s) div 1000 \<and> t \<noteq> 0"
proof -
  have u: "uint (threshold_secs (updateInterval s)) = (2 ^ 32 + updateInterval s) div 1000"
    using assms(3,4) by (rule uint_threshold_secs_negative)
  have "2 ^ 31 div 1000 \<le> (2 ^ 32 + updateInterval s) div 1000"
    using assms(3) by (intro zdiv_mono1) auto
  then have nz: "threshold_secs (updateInterval s) \<noteq> 0"
    using u by auto
  show ?thesis
    using assms(1,2) u nz by (auto simp: configureClient_def Let_def)
qed

text \<open>At an interval of \<open>-1\<close> ms the threshold is 4294967 seconds.\<close>

theorem configureClient_time_threshold_wraps_witness:
  "m_client negative_interval_source = Some (newClient 0)
   \<and> applicationName negative_interval_source \<noteq> []
   \<and> updateInterval negative_interval_source = - 1
   \<and> map_option timeThreshold (m_client (snd (configureClient negative_interval_source)))
       = Some (Some 4294967)"
  using configureClient_time_threshold_wraps [of negative_interval_source "newClient 0"]
  by (simp add: negative_interval_source_def fresh_source_def constructor_def
      restoreLastPosition_def setPreferredPositioningMethods_def members_def
      configureClient_def threshold_secs_def Let_def)

section \<open>Single requests and the deadline timer\<close>

text \<open>
  Claim C4, amended. While the deadline timer is not active, \<^verbatim>\<open>requestUpdate\<close> with a
  nonzero timeout below the minimum update interval of 1000 ms sets and emits
  \<open>UnknownSourceError\<close> and changes nothing else: the timer is not started and no call is
  issued. While the timer is active the call is ignored, whatever the timeout.
\<close>

theorem requestUpdate_rejects_short_timeout:
  "(timeout \<noteq> 0 \<and> timeout < MINIMUM_UPDATE_INTERVAL \<and> m_requestTimer s = None \<longrightarrow>
      requestUpdate timeout s
        = s\<lparr>m_error := UnknownSourceError,
             emitted := emitted s @ [ErrorOccurred UnknownSourceError]\<rparr>)
   \<and> (m_requestTimer s \<noteq> None \<longrightarrow> requestUpdate timeout s = s)"
  by (simp add: requestUpdate_def setError_def minimumUpdateInterval_def Let_def)

theorem requestUpdate_rejects_short_timeout_witness:
  "(500 :: int) \<noteq> 0 \<and> 500 < MINIMUM_UPDATE_INTERVAL \<and> m_requestTimer fresh_source = None
   \<and> m_error (requestUpdate 500 fresh_source) = UnknownSourceError
   \<and> emitted (requestUpdate 500 fresh_source) = [ErrorOccurred UnknownSourceError]
   \<and> m_requestTimer (requestUpdate 500 fresh_source) = None
   \<and> m_client (requestUpdate 500 fresh_source) = None
   \<and> pending (requestUpdate 500 fresh_source) = []
   \<and> m_requestTimer waiting_source \<noteq> None
   \<and> requestUpdate 500 waiting_source = waiting_source"
  using requestUpdate_rejects_short_timeout [of 500 fresh_source]
    requestUpdate_rejects_short_timeout [of 500 waiting_source]
  by (simp add: MINIMUM_UPDATE_INTERVAL_def fresh_source_eq waiting_source_eq members_def)

text \<open>As the claim states it, every such call raises the error: not so while a request
  is outstanding.\<close>

theorem requestUpdate_short_timeout_ignored:
  "m_requestTimer (requestUpdate 5000 fresh_source) = Some 5000
   \<and> m_error (requestUpdate 500 (requestUpdate 5000 fresh_source)) = NoError
   \<and> emitted (requestUpdate 500 (requestUpdate 5000 fresh_source)) = []"
  by (simp add: fresh_source_eq members_def source_defs)

text \<open>
  Claim C5, amended. While the deadline timer is not active, \<^verbatim>\<open>requestUpdate(0)\<close> starts
  it with the cold-start default of 120000 ms and issues the creation of a session, or
  a start call when a proxy exists. A notification stops the timer, so it cannot expire
  afterwards. When the timer expires, \<open>UnknownSourceError\<close> is set and emitted, and when
  continuous updates are not running and a proxy exists a stop call is issued; the
  reply to a stop call deletes the proxy.
\<close>

theorem requestUpdate_cold_start_timeout:
  "(m_requestTimer s = None \<longrightarrow>
       m_requestTimer (requestUpdate 0 s) = Some 120000
     \<and> pending (requestUpdate 0 s)
         = pending s @ [case m_client s of None \<Rightarrow> GetClient | Some c \<Rightarrow> Start (client_id c)])
   \<and> (m_requestTimer s \<noteq> None \<longrightarrow>
       step s TimerTimeout = Inr (requestUpdateTimeout (s\<lparr>m_requestTimer := None\<rparr>))
     \<and> m_requestTimer (requestUpdateTimeout (s\<lparr>m_requestTimer := None\<rparr>)) = None
     \<and> m_error (requestUpdateTimeout (s\<lparr>m_requestTimer := None\<rparr>)) = UnknownSourceError
     \<and> emitted (requestUpdateTimeout (s\<lparr>m_requestTimer := None\<rparr>))
         = emitted s @ [ErrorOccurred UnknownSourceError]
     \<and> pending (requestUpdateTimeout (s\<lparr>m_requestTimer := None\<rparr>))
         = (if m_running s then pending s
            else case m_client s of
                   None \<Rightarrow> pending s
                 | Some c \<Rightarrow> pending s @ [Stop (client_id c)]))
   \<and> step (handleNewLocation location now s) TimerTimeout = Inl NotEnabled
   \<and> (Stop i \<in> set (pending s) \<longrightarrow>
        step s (StopFinished i ok)
          = Inr (stopClient_finished ok (s\<lparr>pending := remove1 (Stop i) (pending s)\<rparr>))
      \<and> m_client (stopClient_finished ok (s\<lparr>pending := remove1 (Stop i) (pending s)\<rparr>))
          = None)"
  by (auto simp: requestUpdate_def requestUpdateTimeout_def startClient_def createClient_def
      stopClient_def setError_def handleNewLocation_def stopClient_finished_def
      UPDATE_TIMEOUT_COLD_START_def minimumUpdateInterval_def MINIMUM_UPDATE_INTERVAL_def Let_def
      split: option.splits)

theorem requestUpdate_cold_start_timeout_witness:
  "m_requestTimer fresh_source = None
   \<and> m_requestTimer (requestUpdate 0 fresh_source) = Some 120000
   \<and> pending (requestUpdate 0 fresh_source) = [GetClient]
   \<and> m_requestTimer waiting_source \<noteq> None
   \<and> \<not> m_running waiting_source
   \<and> m_error (projr (step waiting_source TimerTimeout)) = UnknownSourceError
   \<and> pending (projr (step waiting_source TimerTimeout)) = [Stop 0]
   \<and> Stop 0 \<in> set (pending (projr (step waiting_source TimerTimeout)))
   \<and> m_client (projr (step (projr (step waiting_source TimerTimeout)) (StopFinished 0 True)))
       = None"
  using requestUpdate_cold_start_timeout [of fresh_source None 0 0 True]
    requestUpdate_cold_start_timeout [of waiting_source None 0 0 True]
    requestUpdate_cold_start_timeout [of "projr (step waiting_source TimerTimeout)" None 0 0 True]
  by (simp add: fresh_source_eq waiting_source_eq members_def source_defs)

text \<open>As the claim states it, \<^verbatim>\<open>requestUpdate(0)\<close> always starts the timer with
  120000 ms: not so while a request is outstanding.\<close>

theorem requestUpdate_cold_start_ignored:
  "m_requestTimer (requestUpdate 5000 fresh_source) = Some 5000
   \<and> m_requestTimer (requestUpdate 0 (requestUpdate 5000 fresh_source)) = Some 5000
   \<and> pending (requestUpdate 0 (requestUpdate 5000 fresh_source))
       = pending (requestUpdate 5000 fresh_source)"
  by (simp add: fresh_source_eq members_def source_defs)

section \<open>Failures\<close>

text \<open>
  Claim C3, amended. A failed reply to the creation of the session sets \<open>AccessError\<close>
  and leaves \<^verbatim>\<open>m_client\<close> as it was; a proxy that is not valid, a failed start and every
  reply to a stop call, failed or not, leave no proxy, the failures setting
  \<open>AccessError\<close>. When neither a desktop id nor an application name is set, the
  configuration after a successful creation sets \<open>AccessError\<close> and no start call is
  issued. With no proxy and demand, \<^verbatim>\<open>startClient\<close> issues a new creation.
\<close>

theorem failures_leave_no_started_session:
  "m_client (createClient_finished GetClientError s) = m_client s
   \<and> m_error (createClient_finished GetClientError s) = AccessError
   \<and> m_client (createClient_finished (GetClientPath False) s) = None
   \<and> m_error (createClient_finished (GetClientPath False) s) = AccessError
   \<and> startClient_finished i StartError s = Inr (setError AccessError (s\<lparr>m_client := None\<rparr>))
   \<and> m_client (setError AccessError (s\<lparr>m_client := None\<rparr>)) = None
   \<and> m_error (setError AccessError (s\<lparr>m_client := None\<rparr>)) = AccessError
   \<and> m_client (stopClient_finished ok s) = None
   \<and> m_error (stopClient_finished False s) = AccessError
   \<and> (QT_GEOCLUE_APP_DESKTOP_ID s = [] \<and> applicationName s = [] \<longrightarrow>
        m_error (createClient_finished (GetClientPath True) s) = AccessError
        \<and> pending (createClient_finished (GetClientPath True) s) = pending s)
   \<and> (m_client s = None \<and> (m_running s \<or> m_requestTimer s \<noteq> None) \<longrightarrow>
        startClient s = s\<lparr>pending := pending s @ [GetClient]\<rparr>)"
  by (auto simp: createClient_finished_def startClient_finished_def stopClient_finished_def
      setError_def configureClient_def startClient_def createClient_def Let_def)

theorem failures_leave_no_started_session_witness:
  "QT_GEOCLUE_APP_DESKTOP_ID anonymous_source = [] \<and> applicationName anonymous_source = []
   \<and> m_error (createClient_finished (GetClientPath True) anonymous_source) = AccessError
   \<and> pending (createClient_finished (GetClientPath True) anonymous_source) = []
   \<and> m_client (projr (run fresh_source failed_create_run)) = None
   \<and> m_running (projr (run fresh_source failed_create_run))
   \<and> m_error (projr (run fresh_source failed_create_run)) = AccessError
   \<and> pending (startClient (projr (run fresh_source failed_create_run))) = [GetClient]
   \<and> m_client (projr (startClient_finished 0 StartError starting_source)) = None
   \<and> m_client (stopClient_finished False starting_source) = None"
  using failures_leave_no_started_session [of anonymous_source 0 False]
    failures_leave_no_started_session [of "projr (run fresh_source failed_create_run)" 0 False]
    failures_leave_no_started_session [of starting_source 0 False]
  by (simp add: anonymous_source_eq fresh_source_eq starting_source_eq failed_create_run_def
      members_def source_defs)

text \<open>As the claim states it, every error ends with no proxy: after a failed
  configuration the proxy is still there.\<close>

theorem failed_configuration_keeps_proxy:
  "\<not> isl (run anonymous_source create_run)
   \<and> m_error (projr (run anonymous_source create_run)) = AccessError
   \<and> emitted (projr (run anonymous_source create_run)) = [ErrorOccurred AccessError]
   \<and> m_client (projr (run anonymous_source create_run)) = Some (newClient 0)
   \<and> pending (projr (run anonymous_source create_run)) = []"
  by (simp add: create_run_def anonymous_source_eq members_def source_defs)

section \<open>Replies that arrive after demand has dropped\<close>










section \<open>Demand and the started session\<close>

lemma stopClient_inv: "ids_fresh s \<Longrightarrow> lifecycle_inv (stopClient s)"
  by (auto simp: lifecycle_inv_def ids_fresh_def stop_covers_def demand_def stopClient_def
      split: option.splits)

lemma startClient_inv: "lifecycle_inv s \<Longrightarrow> lifecycle_inv (startClient s)"
  by (auto simp: lifecycle_inv_def ids_fresh_def stop_covers_def demand_def startClient_def
      createClient_def split: option.splits)

lemma startClient_demand_inv: "ids_fresh s \<Longrightarrow> demand s \<Longrightarrow> lifecycle_inv (startClient s)"
  by (auto simp: lifecycle_inv_def ids_fresh_def stop_covers_def demand_def startClient_def
      createClient_def split: option.splits)

lemma setError_inv: "lifecycle_inv s \<Longrightarrow> lifecycle_inv (setError e s)"
  by (auto simp: lifecycle_inv_def ids_fresh_def stop_covers_def demand_def setError_def Let_def)

lemma setError_ids_fresh: "ids_fresh s \<Longrightarrow> ids_fresh (setError e s)"
  by (auto simp: ids_fresh_def setError_def Let_def)

lemma configureClient_inv: "lifecycle_inv s \<Longrightarrow> lifecycle_inv (snd (configureClient s))"
  by (auto simp: lifecycle_inv_def ids_fresh_def stop_covers_def demand_def configureClient_def
      setError_def Let_def split: option.splits)

lemma startUpdates_inv: "lifecycle_inv s \<Longrightarrow> lifecycle_inv (startUpdates s)"
proof (cases "m_running s")
  case True
  then show "lifecycle_inv s \<Longrightarrow> ?thesis" by (simp add: startUpdates_def)
next
  case False
  assume "lifecycle_inv s"
  then have "ids_fresh (s\<lparr>m_error := NoError, m_running := True\<rparr>)"
    by (simp add: lifecycle_inv_def ids_fresh_def)
  moreover have "demand (s\<lparr>m_error := NoError, m_running := True\<rparr>)"
    by (simp add: demand_def)
  ultimately have "lifecycle_inv (startClient (s\<lparr>m_error := NoError, m_running := True\<rparr>))"
    by (rule startClient_demand_inv)
  then show ?thesis using False
    by (auto simp: startUpdates_def Let_def lifecycle_inv_def ids_fresh_def stop_covers_def demand_def)
qed

lemma stopUpdates_inv: "lifecycle_inv s \<Longrightarrow> lifecycle_inv (stopUpdates s)"
proof -
  assume i: "lifecycle_inv s"
  then have "ids_fresh (s\<lparr>m_running := False\<rparr>)"
    by (simp add: lifecycle_inv_def ids_fresh_def)
  then have "lifecycle_inv (stopClient (s\<lparr>m_running := False\<rparr>))"
    by (rule stopClient_inv)
  then show ?thesis using i by (simp add: stopUpdates_def)
qed

lemma requestUpdate_inv: "lifecycle_inv s \<Longrightarrow> lifecycle_inv (requestUpdate timeout s)"
proof -
  assume i: "lifecycle_inv s"
  let ?s1 = "s\<lparr>m_error := NoError\<rparr>"
  let ?s2 = "?s1\<lparr>m_requestTimer := Some (if timeout \<noteq> 0 then timeout else UPDATE_TIMEOUT_COLD_START)\<rparr>"
  have i1: "lifecycle_inv ?s1"
    using i by (simp add: lifecycle_inv_def ids_fresh_def stop_covers_def demand_def)
  have "ids_fresh ?s2" using i by (simp add: lifecycle_inv_def ids_fresh_def)
  moreover have "demand ?s2" by (simp add: demand_def)
  ultimately have "lifecycle_inv (startClient ?s2)" by (rule startClient_demand_inv)
  then show ?thesis using i i1 setError_inv [OF i1, of UnknownSourceError]
    by (simp add: requestUpdate_def Let_def)
qed

lemma setUpdateInterval_inv: "lifecycle_inv s \<Longrightarrow> lifecycle_inv (setUpdateInterval msec s)"
proof -
  assume "lifecycle_inv s"
  then have "lifecycle_inv (s\<lparr>updateInterval := msec\<rparr>)"
    by (simp add: lifecycle_inv_def ids_fresh_def stop_covers_def demand_def)
  then show ?thesis unfolding setUpdateInterval_def by (rule configureClient_inv)
qed

lemma setPreferredPositioningMethods_inv:
  "lifecycle_inv s \<Longrightarrow> lifecycle_inv (setPreferredPositioningMethods methods s)"
proof -
  assume "lifecycle_inv s"
  then have "lifecycle_inv (s\<lparr>preferredPositioningMethods := methods\<rparr>)"
    by (simp add: lifecycle_inv_def ids_fresh_def stop_covers_def demand_def)
  then show ?thesis unfolding setPreferredPositioningMethods_def by (rule configureClient_inv)
qed

lemma requestUpdateTimeout_inv:
  "lifecycle_inv s \<Longrightarrow> lifecycle_inv (requestUpdateTimeout (s\<lparr>m_requestTimer := None\<rparr>))"
proof -
  assume "lifecycle_inv s"
  then have "ids_fresh (s\<lparr>m_requestTimer := None\<rparr>)"
    by (simp add: lifecycle_inv_def ids_fresh_def)
  then have "ids_fresh (setError UnknownSourceError (s\<lparr>m_requestTimer := None\<rparr>))"
    by (rule setError_ids_fresh)
  then show ?thesis unfolding requestUpdateTimeout_def by (rule stopClient_inv)
qed

lemma handleNewLocation_inv:
  assumes "ids_fresh s"
  shows "lifecycle_inv (handleNewLocation location now s)"
  unfolding handleNewLocation_def Let_def
proof (rule stopClient_inv)
  show "ids_fresh (case location of
          None \<Rightarrow> if m_requestTimer s \<noteq> None then s\<lparr>m_requestTimer := None\<rparr> else s
        | Some l \<Rightarrow> (if m_requestTimer s \<noteq> None then s\<lparr>m_requestTimer := None\<rparr> else s)
            \<lparr>m_lastPosition := newPosition now l,
             emitted := emitted (if m_requestTimer s \<noteq> None then s\<lparr>m_requestTimer := None\<rparr> else s)
                        @ [PositionUpdated (newPosition now l)]\<rparr>)"
    using assms by (cases location) (simp_all add: ids_fresh_def)
qed

lemma in_pending_remove1: "x \<in> set (remove1 y xs) \<Longrightarrow> x \<in> set xs"
  using set_remove1_subset [of y xs] by auto

lemma ids_fresh_remove1:
  "ids_fresh s \<Longrightarrow> ids_fresh (s\<lparr>pending := remove1 call (pending s)\<rparr>)"
  by (auto simp: ids_fresh_def dest: in_pending_remove1)

lemma Stop_in_remove1: "call \<noteq> Stop i \<Longrightarrow> Stop i \<in> set xs \<Longrightarrow> Stop i \<in> set (remove1 call xs)"
  by (simp add: in_set_remove1)

lemma stop_covers_remove1:
  assumes "stop_covers s" and "\<And>i. call \<noteq> Stop i"
  shows "stop_covers (s\<lparr>pending := remove1 call (pending s)\<rparr>)"
  unfolding stop_covers_def
proof (intro impI allI)
  fix c
  assume d: "\<not> demand (s\<lparr>pending := remove1 call (pending s)\<rparr>)"
    and c: "m_client (s\<lparr>pending := remove1 call (pending s)\<rparr>) = Some c"
  from d have "\<not> demand s" by (simp add: demand_def)
  with assms(1) c
  consider i where "Stop i \<in> set (pending s)"
    | "\<not> started c" "Start (client_id c) \<notin> set (pending s)"
    by (auto simp: stop_covers_def)
  then show "(\<exists>i. Stop i \<in> set (pending (s\<lparr>pending := remove1 call (pending s)\<rparr>)))
      \<or> (\<not> started c
          \<and> Start (client_id c) \<notin> set (pending (s\<lparr>pending := remove1 call (pending s)\<rparr>)))"
  proof cases
    case 1
    then have "Stop i \<in> set (remove1 call (pending s))"
      using assms(2) by (intro Stop_in_remove1) auto
    then show ?thesis by auto
  next
    case 2
    then show ?thesis by (auto dest: in_pending_remove1)
  qed
qed

lemma remove1_inv:
  "lifecycle_inv s \<Longrightarrow> (\<And>i. call \<noteq> Stop i)
   \<Longrightarrow> lifecycle_inv (s\<lparr>pending := remove1 call (pending s)\<rparr>)"
  by (simp add: lifecycle_inv_def ids_fresh_remove1 stop_covers_remove1)

lemma new_client_inv:
  assumes "lifecycle_inv s"
  shows "lifecycle_inv (s\<lparr>m_client := Some (newClient (next_client s)),
                          next_client := Suc (next_client s)\<rparr>)"
proof -
  have "\<And>i. Start i \<in> set (pending s) \<Longrightarrow> i < next_client s"
    using assms by (simp add: lifecycle_inv_def ids_fresh_def)
  then have "Start (next_client s) \<notin> set (pending s)"
    by (meson less_irrefl)
  then show ?thesis
    using assms
    by (simp add: lifecycle_inv_def ids_fresh_def stop_covers_def demand_def newClient_def
        less_Suc_eq)
qed

lemma no_client_inv:
  "ids_fresh s \<Longrightarrow> m_client s = None \<Longrightarrow> lifecycle_inv s"
  by (simp add: lifecycle_inv_def stop_covers_def)

lemma createClient_finished_inv:
  assumes "lifecycle_inv s"
  shows "lifecycle_inv (createClient_finished reply s)"
proof (cases reply)
  case GetClientError
  then show ?thesis using assms by (simp add: createClient_finished_def setError_inv)
next
  case (GetClientPath valid)
  let ?s1 = "s\<lparr>m_client := Some (newClient (next_client s)), next_client := Suc (next_client s)\<rparr>"
  have i1: "lifecycle_inv ?s1" using assms by (rule new_client_inv)
  show ?thesis
  proof (cases valid)
    case False
    have "ids_fresh (?s1\<lparr>m_client := None\<rparr>)"
      using i1 by (simp add: lifecycle_inv_def ids_fresh_def)
    then have "lifecycle_inv (setError AccessError (?s1\<lparr>m_client := None\<rparr>))"
      by (intro no_client_inv setError_ids_fresh) (simp_all add: setError_def Let_def)
    then show ?thesis using GetClientPath False by (simp add: createClient_finished_def Let_def)
  next
    case True
    have i2: "lifecycle_inv (snd (configureClient ?s1))" using i1 by (rule configureClient_inv)
    then have "lifecycle_inv (startClient (snd (configureClient ?s1)))" by (rule startClient_inv)
    then show ?thesis using GetClientPath True i2
      by (cases "configureClient ?s1") (auto simp: createClient_finished_def Let_def split: bool.splits)
  qed
qed

lemma stopClient_finished_inv:
  assumes "ids_fresh s"
  shows "lifecycle_inv (stopClient_finished ok s)"
proof -
  have "ids_fresh (stopClient_finished ok s)"
    using assms by (simp add: stopClient_finished_def Let_def ids_fresh_def setError_def)
  moreover have "m_client (stopClient_finished ok s) = None"
    by (simp add: stopClient_finished_def Let_def)
  ultimately show ?thesis by (rule no_client_inv)
qed

lemma startClient_finished_inv:
  assumes "lifecycle_inv s" and "Start i \<in> set (pending s)"
    and "startClient_finished i reply (s\<lparr>pending := remove1 (Start i) (pending s)\<rparr>) = Inr s'"
  shows "lifecycle_inv s'"
proof (cases reply)
  case StartError
  let ?s0 = "s\<lparr>pending := remove1 (Start i) (pending s)\<rparr>"
  have "ids_fresh (?s0\<lparr>m_client := None\<rparr>)"
    using assms(1) by (auto simp: lifecycle_inv_def ids_fresh_def dest: in_pending_remove1)
  then have "lifecycle_inv (setError AccessError (?s0\<lparr>m_client := None\<rparr>))"
    by (intro no_client_inv setError_ids_fresh) (simp_all add: setError_def Let_def)
  then show ?thesis using assms(3) StartError by (simp add: startClient_finished_def)
next
  case (StartOk path location now)
  let ?s0 = "s\<lparr>pending := remove1 (Start i) (pending s)\<rparr>"
  have i0: "lifecycle_inv ?s0" using assms(1) by (intro remove1_inv) auto
  from assms(3) StartOk obtain c where c: "m_client s = Some c"
    by (cases "m_client s") (simp_all add: startClient_finished_def)
  let ?s1 = "?s0\<lparr>m_client := Some (mark_started i c)\<rparr>"
  have f1: "ids_fresh ?s1"
    using i0 c by (simp add: lifecycle_inv_def ids_fresh_def mark_started_def)
  show ?thesis
  proof (cases "path = [] \<or> path = ''/''")
    case False
    have "lifecycle_inv (handleNewLocation location now ?s1)"
      using f1 by (rule handleNewLocation_inv)
    then show ?thesis using assms(3) StartOk c False
      by (auto simp: startClient_finished_def Let_def)
  next
    case True
    have "stop_covers ?s1"
      unfolding stop_covers_def
    proof (intro impI allI)
      fix c'
      assume d: "\<not> demand ?s1" and c': "m_client ?s1 = Some c'"
      from d have nd: "\<not> demand s" by (simp add: demand_def)
      from c' have e: "c' = mark_started i c" by simp
      from nd c assms(1)
      consider j where "Stop j \<in> set (pending s)"
        | "\<not> started c" "Start (client_id c) \<notin> set (pending s)"
        by (auto simp: lifecycle_inv_def stop_covers_def)
      then show "(\<exists>j. Stop j \<in> set (pending ?s1))
          \<or> (\<not> started c' \<and> Start (client_id c') \<notin> set (pending ?s1))"
      proof cases
        case 1
        then have "Stop j \<in> set (remove1 (Start i) (pending s))"
          by (intro Stop_in_remove1) auto
        then show ?thesis by auto
      next
        case 2
        with assms(2) have "client_id c \<noteq> i" by auto
        then have "c' = c" using e by (simp add: mark_started_def)
        then show ?thesis using 2 by (auto dest: in_pending_remove1)
      qed
    qed
    then have "lifecycle_inv ?s1" using f1 by (simp add: lifecycle_inv_def)
    then show ?thesis using assms(3) StartOk c True
      by (auto simp: startClient_finished_def Let_def)
  qed
qed

lemma step_inv:
  assumes "lifecycle_inv s" and "step s e = Inr s'"
  shows "lifecycle_inv s'"
proof (cases e)
  case StartUpdates
  then show ?thesis using assms startUpdates_inv by auto
next
  case StopUpdates
  then show ?thesis using assms stopUpdates_inv by auto
next
  case (RequestUpdate timeout)
  then show ?thesis using assms requestUpdate_inv by auto
next
  case (SetUpdateInterval msec)
  then show ?thesis using assms setUpdateInterval_inv by auto
next
  case (SetPreferredPositioningMethods methods)
  then show ?thesis using assms setPreferredPositioningMethods_inv by auto
next
  case TimerTimeout
  then show ?thesis using assms requestUpdateTimeout_inv by (auto split: if_splits)
next
  case (GetClientFinished reply)
  have "lifecycle_inv (s\<lparr>pending := remove1 GetClient (pending s)\<rparr>)"
    using assms(1) by (intro remove1_inv) auto
  then have "lifecycle_inv (createClient_finished reply (s\<lparr>pending := remove1 GetClient (pending s)\<rparr>))"
    by (rule createClient_finished_inv)
  then show ?thesis using assms(2) GetClientFinished by (auto split: if_splits)
next
  case (StartFinished i reply)
  then show ?thesis using assms startClient_finished_inv [of s i reply s']
    by (auto split: if_splits)
next
  case (StopFinished i ok)
  have "ids_fresh (s\<lparr>pending := remove1 (Stop i) (pending s)\<rparr>)"
    using assms(1) by (simp add: lifecycle_inv_def ids_fresh_remove1)
  then have "lifecycle_inv (stopClient_finished ok (s\<lparr>pending := remove1 (Stop i) (pending s)\<rparr>))"
    by (rule stopClient_finished_inv)
  then show ?thesis using assms(2) StopFinished by (auto split: if_splits)
next
  case (LocationUpdated location now)
  have "lifecycle_inv (handleNewLocation location now s)"
    using assms(1) by (intro handleNewLocation_inv) (simp add: lifecycle_inv_def)
  then show ?thesis using assms(2) LocationUpdated by (auto split: if_splits)
qed

lemma run_inv: "lifecycle_inv s \<Longrightarrow> run s es = Inr s' \<Longrightarrow> lifecycle_inv s'"
proof (induction es arbitrary: s)
  case Nil
  then show ?case by simp
next
  case (Cons e es)
  then show ?case by (cases "step s e") (auto dest: step_inv)
qed

lemma constructor_inv: "lifecycle_inv (constructor env app dec file)"
  by (cases "file")
    (simp_all add: constructor_def restoreLastPosition_def setPreferredPositioningMethods_def
      configureClient_def members_def lifecycle_inv_def ids_fresh_def stop_covers_def)

subsection \<open>Demand is supplied in orderly runs\<close>

lemma live_Nil [simp]: "\<not> live c []"
  by (simp add: live_def)

lemma live_append_last: "live c (calls @ [c])"
  unfolding live_def by (rule exI [of _ calls], rule exI [of _ "[]"]) simp

lemma live_append_other:
  assumes "live c calls" and "\<And>i. x \<noteq> Stop i"
  shows "live c (calls @ [x])"
proof -
  from assms(1) obtain ys zs where "calls = ys @ c # zs" and "\<forall>i. Stop i \<notin> set zs"
    by (auto simp: live_def)
  then have "calls @ [x] = ys @ c # (zs @ [x])" and "\<forall>i. Stop i \<notin> set (zs @ [x])"
    using assms(2) by auto
  then show ?thesis unfolding live_def by blast
qed

lemma live_Cons_other:
  assumes "live c (x # calls)" and "c \<noteq> x"
  shows "live c calls"
proof -
  from assms(1) obtain ys zs where e: "x # calls = ys @ c # zs" and n: "\<forall>i. Stop i \<notin> set zs"
    by (auto simp: live_def)
  from e assms(2) obtain ys' where "ys = x # ys'"
    by (cases ys) auto
  with e have "calls = ys' @ c # zs" by simp
  with n show ?thesis unfolding live_def by blast
qed

lemma live_Cons_same:
  assumes "live c (c # calls)"
  shows "live c calls \<or> (\<forall>i. Stop i \<notin> set calls)"
proof -
  from assms obtain ys zs where e: "c # calls = ys @ c # zs" and n: "\<forall>i. Stop i \<notin> set zs"
    by (auto simp: live_def)
  show ?thesis
  proof (cases ys)
    case Nil
    with e n show ?thesis by simp
  next
    case (Cons y ys')
    with e have "calls = ys' @ c # zs" by simp
    with n show ?thesis unfolding live_def by blast
  qed
qed

lemma take1_eq: "take (Suc 0) xs = [x] \<longleftrightarrow> (\<exists>rest. xs = x # rest)"
  by (cases xs) auto

lemma supplied_no_demand: "configured s \<Longrightarrow> \<not> demand s \<Longrightarrow> supplied s"
  by (simp add: supplied_def configured_def)

lemma supplied_configured: "supplied s \<Longrightarrow> configured s"
  by (simp add: supplied_def configured_def)

lemma supplied_eqI:
  assumes "supplied s"
    and "m_client s' = m_client s" and "pending s' = pending s"
    and "m_running s' = m_running s" and "m_requestTimer s' = m_requestTimer s"
    and "QT_GEOCLUE_APP_DESKTOP_ID s' = QT_GEOCLUE_APP_DESKTOP_ID s"
    and "applicationName s' = applicationName s"
  shows "supplied s'"
  using assms by (simp add: supplied_def demand_def)

lemma setError_supplied: "supplied s \<Longrightarrow> supplied (setError e s)"
  by (erule supplied_eqI) (simp_all add: setError_def Let_def)

lemma startClient_supplied:
  assumes "configured s" and "demand s"
  shows "supplied (startClient s)"
proof (cases "m_client s")
  case None
  then have "startClient s = s\<lparr>pending := pending s @ [GetClient]\<rparr>"
    using assms(2) by (auto simp: startClient_def createClient_def demand_def)
  then show ?thesis
    using assms(1) by (simp add: supplied_def configured_def live_append_last)
next
  case (Some c)
  then have "startClient s = s\<lparr>pending := pending s @ [Start (client_id c)]\<rparr>"
    using assms(2) by (auto simp: startClient_def demand_def)
  then show ?thesis
    using assms(1) Some by (simp add: supplied_def configured_def live_append_last)
qed

lemma startClient_no_demand: "\<not> demand s \<Longrightarrow> startClient s = s"
  by (simp add: startClient_def demand_def)

lemma stopClient_demand: "demand s \<Longrightarrow> stopClient s = s"
  by (auto simp: stopClient_def demand_def)

lemma stopClient_supplied:
  assumes "configured s" and "demand s \<Longrightarrow> supplied s"
  shows "supplied (stopClient s)"
proof (cases "demand s")
  case True
  then show ?thesis using assms(2) by (simp add: stopClient_demand)
next
  case False
  then have "\<not> demand (stopClient s)"
    by (simp add: stopClient_def demand_def split: option.split)
  moreover have "configured (stopClient s)"
    using assms(1) by (simp add: stopClient_def configured_def split: option.split)
  ultimately show ?thesis by (rule supplied_no_demand [rotated])
qed

lemma startUpdates_supplied: "supplied s \<Longrightarrow> supplied (startUpdates s)"
proof (cases "m_running s")
  case True
  then show "supplied s \<Longrightarrow> ?thesis" by (simp add: startUpdates_def)
next
  case False
  assume "supplied s"
  let ?s2 = "s\<lparr>m_error := NoError, m_running := True\<rparr>"
  have "configured ?s2" using \<open>supplied s\<close> by (simp add: supplied_def configured_def)
  moreover have "demand ?s2" by (simp add: demand_def)
  ultimately have "supplied (startClient ?s2)" by (rule startClient_supplied)
  then have "supplied (startClient ?s2\<lparr>emitted := emitted (startClient ?s2)
      @ [QueuedPositionUpdated (m_lastPosition (startClient ?s2))]\<rparr>)"
    by (rule supplied_eqI) simp_all
  then show ?thesis
    using False \<open>supplied (startClient ?s2)\<close> by (simp add: startUpdates_def Let_def)
qed

lemma stopUpdates_supplied: "supplied s \<Longrightarrow> supplied (stopUpdates s)"
proof (cases "m_running s")
  case False
  then show "supplied s \<Longrightarrow> ?thesis" by (simp add: stopUpdates_def)
next
  case True
  assume i: "supplied s"
  have "supplied (stopClient (s\<lparr>m_running := False\<rparr>))"
  proof (rule stopClient_supplied)
    show "configured (s\<lparr>m_running := False\<rparr>)"
      using i by (simp add: supplied_def configured_def)
    assume "demand (s\<lparr>m_running := False\<rparr>)"
    then show "supplied (s\<lparr>m_running := False\<rparr>)"
      using i by (simp add: supplied_def demand_def)
  qed
  then show ?thesis using True by (simp add: stopUpdates_def)
qed

lemma requestUpdate_supplied: "supplied s \<Longrightarrow> supplied (requestUpdate timeout s)"
proof -
  assume i: "supplied s"
  let ?s1 = "s\<lparr>m_error := NoError\<rparr>"
  let ?s2 = "?s1\<lparr>m_requestTimer :=
                   Some (if timeout \<noteq> 0 then timeout else UPDATE_TIMEOUT_COLD_START)\<rparr>"
  have i1: "supplied ?s1" using i by (rule supplied_eqI) simp_all
  have "configured ?s2" using i by (simp add: supplied_def configured_def)
  moreover have "demand ?s2" by (simp add: demand_def)
  ultimately have "supplied (startClient ?s2)" by (rule startClient_supplied)
  then show ?thesis
    using i setError_supplied [OF i1, of UnknownSourceError]
    by (simp add: requestUpdate_def Let_def)
qed

lemma configureClient_supplied: "supplied s \<Longrightarrow> supplied (snd (configureClient s))"
  by (auto simp: supplied_def demand_def configureClient_def setError_def Let_def
      split: option.splits)

lemma setUpdateInterval_supplied: "supplied s \<Longrightarrow> supplied (setUpdateInterval msec s)"
proof -
  assume "supplied s"
  then have "supplied (s\<lparr>updateInterval := msec\<rparr>)"
    by (rule supplied_eqI) simp_all
  then show ?thesis unfolding setUpdateInterval_def by (rule configureClient_supplied)
qed

lemma setPreferredPositioningMethods_supplied:
  "supplied s \<Longrightarrow> supplied (setPreferredPositioningMethods methods s)"
proof -
  assume "supplied s"
  then have "supplied (s\<lparr>preferredPositioningMethods := methods\<rparr>)"
    by (rule supplied_eqI) simp_all
  then show ?thesis
    unfolding setPreferredPositioningMethods_def by (rule configureClient_supplied)
qed

lemma requestUpdateTimeout_supplied:
  assumes "supplied s"
  shows "supplied (requestUpdateTimeout (s\<lparr>m_requestTimer := None\<rparr>))"
  unfolding requestUpdateTimeout_def
proof (rule stopClient_supplied)
  show "configured (setError UnknownSourceError (s\<lparr>m_requestTimer := None\<rparr>))"
    using assms by (simp add: supplied_def configured_def setError_def Let_def)
  assume "demand (setError UnknownSourceError (s\<lparr>m_requestTimer := None\<rparr>))"
  then show "supplied (setError UnknownSourceError (s\<lparr>m_requestTimer := None\<rparr>))"
    using assms by (simp add: supplied_def demand_def setError_def Let_def)
qed

lemma handleNewLocation_supplied:
  assumes "supplied s"
  shows "supplied (handleNewLocation location now s)"
  unfolding handleNewLocation_def Let_def
proof (rule stopClient_supplied)
  let ?s1 = "if m_requestTimer s \<noteq> None then s\<lparr>m_requestTimer := None\<rparr> else s"
  let ?s2 = "case location of None \<Rightarrow> ?s1
             | Some l \<Rightarrow> ?s1\<lparr>m_lastPosition := newPosition now l,
                             emitted := emitted ?s1 @ [PositionUpdated (newPosition now l)]\<rparr>"
  show "configured ?s2"
    using assms by (cases location) (simp_all add: supplied_def configured_def)
  assume "demand ?s2"
  then show "supplied ?s2"
    using assms by (cases location) (auto simp: supplied_def demand_def split: if_splits)
qed

lemma configureClient_succeeds:
  assumes "configured s" and "m_client s = Some c0"
  shows "\<exists>c. configureClient s = (True, s\<lparr>m_client := Some c\<rparr>)"
  using assms by (auto simp: configureClient_def configured_def Let_def)

lemma createClient_finished_supplied:
  assumes "configured s"
  shows "supplied (createClient_finished (GetClientPath True) s)"
proof -
  let ?s1 = "s\<lparr>m_client := Some (newClient (next_client s)), next_client := Suc (next_client s)\<rparr>"
  have "configured ?s1" using assms by (simp add: configured_def)
  then obtain c where c: "configureClient ?s1 = (True, ?s1\<lparr>m_client := Some c\<rparr>)"
    using configureClient_succeeds [of ?s1 "newClient (next_client s)"] by auto
  let ?s2 = "?s1\<lparr>m_client := Some c\<rparr>"
  have cfg: "configured ?s2" using assms by (simp add: configured_def)
  have "supplied (startClient ?s2)"
  proof (cases "demand ?s2")
    case True
    with cfg show ?thesis by (rule startClient_supplied)
  next
    case False
    then show ?thesis using cfg by (simp add: startClient_no_demand supplied_no_demand)
  qed
  then show ?thesis using c by (simp add: createClient_finished_def Let_def)
qed

lemma stopClient_finished_supplied:
  assumes "supplied s" and "pending s = Stop j # rest"
  shows "supplied (stopClient_finished ok (s\<lparr>pending := rest\<rparr>))"
proof -
  have "demand s \<Longrightarrow> live GetClient rest \<or> (\<exists>i. live (Start i) rest)"
  proof -
    assume "demand s"
    with assms(1)
    consider "live GetClient (pending s)" | i where "live (Start i) (pending s)"
      | "\<forall>i. Stop i \<notin> set (pending s)"
      by (auto simp: supplied_def)
    then show ?thesis
    proof cases
      case 1
      then show ?thesis using assms(2) live_Cons_other [of GetClient "Stop j" rest] by simp
    next
      case 2
      then show ?thesis using assms(2) live_Cons_other [of "Start i" "Stop j" rest] by auto
    next
      case 3
      then have False using assms(2) by (metis list.set_intros(1))
      then show ?thesis ..
    qed
  qed
  then show ?thesis
    using assms(1)
    by (auto simp: supplied_def demand_def stopClient_finished_def setError_def Let_def)
qed

lemma mark_started_supplied:
  assumes "supplied s" and "pending s = Start i # rest" and "m_client s = Some c"
  shows "supplied (s\<lparr>pending := rest, m_client := Some (mark_started i c)\<rparr>)"
proof -
  have "demand s \<Longrightarrow>
        live GetClient rest \<or> live (Start (client_id c)) rest
        \<or> (started (mark_started i c) \<and> (\<forall>k. Stop k \<notin> set rest))"
  proof -
    assume "demand s"
    with assms(1,3)
    consider "live GetClient (pending s)" | "live (Start (client_id c)) (pending s)"
      | "started c" "\<forall>k. Stop k \<notin> set (pending s)"
      by (auto simp: supplied_def)
    then show ?thesis
    proof cases
      case 1
      then show ?thesis using assms(2) live_Cons_other [of GetClient "Start i" rest] by simp
    next
      case 2
      show ?thesis
      proof (cases "client_id c = i")
        case True
        then show ?thesis
          using 2 assms(2) live_Cons_same [of "Start i" rest] by (auto simp: mark_started_def)
      next
        case False
        then show ?thesis
          using 2 assms(2) live_Cons_other [of "Start (client_id c)" "Start i" rest] by simp
      qed
    next
      case 3
      then show ?thesis using assms(2) by (simp add: mark_started_def)
    qed
  qed
  then show ?thesis
    using assms(1) by (auto simp: supplied_def demand_def mark_started_def)
qed

lemma startClient_finished_supplied:
  assumes "supplied s" and "pending s = Start i # rest"
    and "startClient_finished i (StartOk path location now) (s\<lparr>pending := rest\<rparr>) = Inr s'"
  shows "supplied s'"
proof -
  from assms(3) obtain c where c: "m_client s = Some c"
    by (cases "m_client s") (simp_all add: startClient_finished_def)
  let ?s1 = "s\<lparr>pending := rest, m_client := Some (mark_started i c)\<rparr>"
  have s1: "supplied ?s1" using assms(1,2) c by (rule mark_started_supplied)
  then have "supplied (handleNewLocation location now ?s1)" by (rule handleNewLocation_supplied)
  then show ?thesis
    using assms(3) c s1 by (auto simp: startClient_finished_def Let_def split: if_splits)
qed

lemma step_supplied:
  assumes "supplied s" and "admissible s e" and "step s e = Inr s'"
  shows "supplied s'"
proof (cases e)
  case StartUpdates
  then show ?thesis using assms startUpdates_supplied by auto
next
  case StopUpdates
  then show ?thesis using assms stopUpdates_supplied by auto
next
  case (RequestUpdate timeout)
  then show ?thesis using assms requestUpdate_supplied by auto
next
  case (SetUpdateInterval msec)
  then show ?thesis using assms setUpdateInterval_supplied by auto
next
  case (SetPreferredPositioningMethods methods)
  then show ?thesis using assms setPreferredPositioningMethods_supplied by auto
next
  case TimerTimeout
  then show ?thesis using assms requestUpdateTimeout_supplied by (auto split: if_splits)
next
  case (GetClientFinished reply)
  with assms(2) obtain rest where r: "reply = GetClientPath True" "pending s = GetClient # rest"
    by (auto simp: admissible_def take1_eq)
  have "configured (s\<lparr>pending := rest\<rparr>)"
    using assms(1) by (simp add: supplied_def configured_def)
  then have "supplied (createClient_finished (GetClientPath True) (s\<lparr>pending := rest\<rparr>))"
    by (rule createClient_finished_supplied)
  then show ?thesis using assms(3) GetClientFinished r by simp
next
  case (StartFinished i reply)
  with assms(2) obtain rest path location now
    where r: "reply = StartOk path location now" "pending s = Start i # rest"
    by (cases reply) (auto simp: admissible_def take1_eq)
  then show ?thesis
    using assms(1,3) StartFinished startClient_finished_supplied [of s i rest path location now s']
    by simp
next
  case (StopFinished j ok)
  with assms(2) obtain rest where r: "pending s = Stop j # rest"
    by (auto simp: admissible_def take1_eq)
  with assms(1) have "supplied (stopClient_finished ok (s\<lparr>pending := rest\<rparr>))"
    by (rule stopClient_finished_supplied)
  then show ?thesis using assms(3) StopFinished r by simp
next
  case (LocationUpdated location now)
  then show ?thesis using assms handleNewLocation_supplied by (auto split: if_splits)
qed

lemma run_supplied:
  "supplied s \<Longrightarrow> orderly s es \<Longrightarrow> run s es = Inr s' \<Longrightarrow> supplied s'"
proof (induction es arbitrary: s)
  case Nil
  then show ?case by simp
next
  case (Cons e es)
  then show ?case by (cases "step s e") (auto dest: step_supplied)
qed

lemma constructor_supplied:
  "env \<noteq> [] \<or> app \<noteq> [] \<Longrightarrow> supplied (constructor env app dec stored)"
  by (cases stored)
    (simp_all add: constructor_def restoreLastPosition_def setPreferredPositioningMethods_def
      configureClient_def members_def supplied_def demand_def)

text \<open>
  Claim C1, amended. After every sequence of calls, replies, timer expiries and
  notifications that the source survives, once no call is in flight: if the proxy
  exists and has been started, then continuous updates are running or the deadline
  timer is active; and conversely, if continuous updates are running or the timer is
  active, the proxy exists and has been started, provided a desktop id or an
  application name is set and the run is orderly (no creation or start failed, and the
  replies came in the order of the calls).
\<close>

theorem started_session_iff_demand:
  assumes "run (constructor env app dec stored) es = Inr s" and "pending s = []"
  shows "((\<exists>c. m_client s = Some c \<and> started c) \<longrightarrow> m_running s \<or> m_requestTimer s \<noteq> None)
       \<and> ((env \<noteq> [] \<or> app \<noteq> []) \<and> orderly (constructor env app dec stored) es
            \<and> (m_running s \<or> m_requestTimer s \<noteq> None)
          \<longrightarrow> (\<exists>c. m_client s = Some c \<and> started c))"
proof (intro conjI impI)
  assume "\<exists>c. m_client s = Some c \<and> started c"
  moreover have "lifecycle_inv s"
    using constructor_inv assms(1) by (rule run_inv)
  ultimately show "m_running s \<or> m_requestTimer s \<noteq> None"
    using assms(2) by (auto simp: lifecycle_inv_def stop_covers_def demand_def)
next
  assume a: "(env \<noteq> [] \<or> app \<noteq> []) \<and> orderly (constructor env app dec stored) es
            \<and> (m_running s \<or> m_requestTimer s \<noteq> None)"
  then have "supplied (constructor env app dec stored)"
    by (intro constructor_supplied) simp
  then have "supplied s"
    using a assms(1) by (intro run_supplied [of "constructor env app dec stored" es s]) simp_all
  then show "\<exists>c. m_client s = Some c \<and> started c"
    using a assms(2) by (auto simp: supplied_def demand_def)
qed

theorem started_session_iff_demand_witness:
  "run fresh_source started_run = Inr (projr (run fresh_source started_run))
   \<and> pending (projr (run fresh_source started_run)) = []
   \<and> orderly fresh_source started_run
   \<and> m_running (projr (run fresh_source started_run))
   \<and> map_option started (m_client (projr (run fresh_source started_run))) = Some True"
  using started_session_iff_demand
    [of "[]" "''app''" "\<lambda>u :: unit. defaultQGeoPositionInfo" None started_run
        "projr (run fresh_source started_run)", folded fresh_source_def]
  by (simp add: run_started_run orderly_started_run members_def)

text \<open>As the claim states it, demand implies a started session once everything has
  settled: after a failed creation continuous updates are still running and there is
  no session.\<close>

theorem failed_create_keeps_demand:
  "\<not> isl (run fresh_source failed_create_run)
   \<and> pending (projr (run fresh_source failed_create_run)) = []
   \<and> m_running (projr (run fresh_source failed_create_run))
   \<and> m_client (projr (run fresh_source failed_create_run)) = None"
  by (simp add: failed_create_run_def fresh_source_eq members_def source_defs)

end
